theory Spec2Isabelle
  imports Main "HOL-Library.Word"
begin

section \<open>The native layer under sqlfs.cpp\<close>

text \<open>
  sqlfs.cpp is a FUSE driver: every callback translates the visible path into a path
  below the dump directory and calls the libc primitive there. The primitives are not
  code of the driver; they are modelled here by a small deterministic backing store, so
  that the callbacks can be run. Each primitive returns the C result (\<open>-1\<close> on failure,
  with \<open>errno\<close> set in the state) and appends the call to a trace, which keeps the order
  of the calls a callback makes.
\<close>

datatype node = Reg string | Dir | Special

datatype FileFormat = TYPE_TSV | TYPE_JSON

text \<open>How a callback can end without returning: a failed \<open>assert\<close>, a read through a
  null pointer, a vector read out of range, the process killed.\<close>

datatype fault = AssertFailed | NullDeref | OutOfRange | Killed

datatype event =
    EvOpen string int int
  | EvClose int
  | EvTruncate string nat
  | EvPwrite int string nat
  | EvMkdir string
  | EvOpendir string
  | EvRewinddir string
  | EvUnlink string
  | EvCreate string
  | EvExecuteQuery string string string string FileFormat
  | EvExecuteCustomQuery string string
  | EvPrint string

record dirstream =
  d_path :: string
  d_buf :: "(string \<times> node) list option"
  d_pos :: nat

record world =
  files :: "(string \<times> node) list"
  fdtab :: "(int \<times> string) list"
  dirtab :: "(64 word \<times> dirstream) list"
  errno :: int
  wcap :: nat
  trace :: "event list"

definition EPERM :: int where "EPERM = 1"
definition ENOENT :: int where "ENOENT = 2"
definition EBADF :: int where "EBADF = 9"
definition EEXIST :: int where "EEXIST = 17"
definition ENOTDIR :: int where "ENOTDIR = 20"
definition EISDIR :: int where "EISDIR = 21"
definition EOPNOTSUPP :: int where "EOPNOTSUPP = 95"
definition O_WRONLY :: int where "O_WRONLY = 1"

definition emit :: "event \<Rightarrow> world \<Rightarrow> world" where
  "emit ev w = w\<lparr>trace := trace w @ [ev]\<rparr>"

definition fail_with :: "int \<Rightarrow> world \<Rightarrow> int \<times> world" where
  "fail_with e w = (-1, w\<lparr>errno := e\<rparr>)"

definition lookup_node :: "world \<Rightarrow> string \<Rightarrow> node option" where
  "lookup_node w p = map_of (files w) p"

definition store_node :: "string \<Rightarrow> node \<Rightarrow> (string \<times> node) list \<Rightarrow> (string \<times> node) list" where
  "store_node p n fs =
     (if p \<in> fst ` set fs then map (\<lambda>(q, m). if q = p then (q, n) else (q, m)) fs
      else fs @ [(p, n)])"

definition next_fd :: "(int \<times> string) list \<Rightarrow> int" where
  "next_fd tab = 1 + fold max (map fst tab) 2"

text \<open>\<open>open(path, flags)\<close>: a descriptor for an existing regular file. The flags are
  recorded in the trace and not interpreted (no O_CREAT, no permission bits).\<close>

definition sys_open :: "string \<Rightarrow> int \<Rightarrow> world \<Rightarrow> int \<times> world" where
  "sys_open p flags w =
     (case lookup_node w p of
        Some (Reg c) \<Rightarrow>
          (let fd = next_fd (fdtab w)
           in (fd, emit (EvOpen p flags fd) (w\<lparr>fdtab := fdtab w @ [(fd, p)]\<rparr>)))
      | Some _ \<Rightarrow> fail_with EISDIR (emit (EvOpen p flags (-1)) w)
      | None \<Rightarrow> fail_with ENOENT (emit (EvOpen p flags (-1)) w))"

definition sys_close :: "int \<Rightarrow> world \<Rightarrow> int \<times> world" where
  "sys_close fd w =
     (if fd \<in> fst ` set (fdtab w)
      then (0, emit (EvClose fd) (w\<lparr>fdtab := filter (\<lambda>(d, p). d \<noteq> fd) (fdtab w)\<rparr>))
      else fail_with EBADF (emit (EvClose fd) w))"

definition resize :: "nat \<Rightarrow> string \<Rightarrow> string" where
  "resize n c = take n c @ replicate (n - length c) (CHR 0x00)"

definition sys_truncate :: "string \<Rightarrow> nat \<Rightarrow> world \<Rightarrow> int \<times> world" where
  "sys_truncate p n w =
     (case lookup_node w p of
        Some (Reg c) \<Rightarrow>
          (0, emit (EvTruncate p n) (w\<lparr>files := store_node p (Reg (resize n c)) (files w)\<rparr>))
      | Some _ \<Rightarrow> fail_with EISDIR (emit (EvTruncate p n) w)
      | None \<Rightarrow> fail_with ENOENT (emit (EvTruncate p n) w))"

definition overwrite :: "string \<Rightarrow> nat \<Rightarrow> string \<Rightarrow> string" where
  "overwrite c off buf = resize off c @ buf @ drop (off + length buf) c"

text \<open>\<open>pwrite(fd, buf, count, offset)\<close> transfers at most \<open>wcap\<close> bytes in one call and
  returns the number it transferred: POSIX allows a write to be short. A descriptor
  whose file has been unlinked still accepts the bytes; they are not visible under any
  path.\<close>

definition sys_pwrite :: "int \<Rightarrow> string \<Rightarrow> nat \<Rightarrow> world \<Rightarrow> int \<times> world" where
  "sys_pwrite fd buf off w =
     (case map_of (fdtab w) fd of
        None \<Rightarrow> fail_with EBADF (emit (EvPwrite fd buf off) w)
      | Some p \<Rightarrow>
          (let part = take (wcap w) buf; w' = emit (EvPwrite fd part off) w
           in case lookup_node w p of
                Some (Reg c) \<Rightarrow>
                  (int (length part),
                   w'\<lparr>files := store_node p (Reg (overwrite c off part)) (files w)\<rparr>)
              | _ \<Rightarrow> (int (length part), w')))"

definition sys_mkdir :: "string \<Rightarrow> world \<Rightarrow> int \<times> world" where
  "sys_mkdir p w =
     (case lookup_node w p of
        Some _ \<Rightarrow> fail_with EEXIST (emit (EvMkdir p) w)
      | None \<Rightarrow> (0, emit (EvMkdir p) (w\<lparr>files := files w @ [(p, Dir)]\<rparr>)))"

definition sys_pread :: "int \<Rightarrow> nat \<Rightarrow> nat \<Rightarrow> world \<Rightarrow> (int \<times> string) \<times> world" where
  "sys_pread fd cnt off w =
     (case map_of (fdtab w) fd of
        None \<Rightarrow> ((-1, []), w\<lparr>errno := EBADF\<rparr>)
      | Some p \<Rightarrow>
          (case lookup_node w p of
             Some (Reg c) \<Rightarrow>
               (let got = take cnt (drop off c) in ((int (length got), got), w))
           | _ \<Rightarrow> ((0, []), w)))"

text \<open>\<open>posix_fallocate(fd, offset, len)\<close> returns an errno value, 0 on success.\<close>

definition sys_posix_fallocate :: "int \<Rightarrow> nat \<Rightarrow> nat \<Rightarrow> world \<Rightarrow> int \<times> world" where
  "sys_posix_fallocate fd off len w =
     (case map_of (fdtab w) fd of
        None \<Rightarrow> (EBADF, w)
      | Some p \<Rightarrow>
          (case lookup_node w p of
             Some (Reg c) \<Rightarrow>
               (0, w\<lparr>files := store_node p (Reg (resize (max (length c) (off + len)) c)) (files w)\<rparr>)
           | _ \<Rightarrow> (0, w)))"

subsection \<open>Directories and directory streams\<close>

text \<open>
  The store is flat: the files of directory \<open>d\<close> are the paths \<open>d/name\<close> with no
  further \<open>/\<close> in the name, \<open>list_dir\<close>; a stream reads \<open>.\<close> and \<open>..\<close> first and then
  these, \<open>read_dir\<close>. A \<open>DIR*\<close> is a non-zero 64-bit handle into \<open>dirtab\<close>, and
  \<open>readdir\<close> on the null handle reads through a null pointer. As in glibc, a stream
  fills its buffer from the directory at the first \<open>readdir\<close> after \<open>opendir\<close> or
  \<open>rewinddir\<close> and then hands out the buffered entries; the model takes the whole
  directory into one buffer.
\<close>

definition child_name :: "string \<Rightarrow> string \<Rightarrow> string option" where
  "child_name d p =
     (let pre = d @ ''/''; nm = drop (length pre) p
      in if take (length pre) p = pre \<and> nm \<noteq> [] \<and> CHR ''/'' \<notin> set nm \<and> nm \<noteq> ''.'' \<and> nm \<noteq> ''..''
         then Some nm else None)"

definition list_dir :: "(string \<times> node) list \<Rightarrow> string \<Rightarrow> (string \<times> node) list" where
  "list_dir fs d = List.map_filter (\<lambda>(p, n). map_option (\<lambda>nm. (nm, n)) (child_name d p)) fs"

definition read_dir :: "(string \<times> node) list \<Rightarrow> string \<Rightarrow> (string \<times> node) list" where
  "read_dir fs d = (''.'', Dir) # (''..'', Dir) # list_dir fs d"

definition sys_opendir :: "string \<Rightarrow> world \<Rightarrow> 64 word \<times> world" where
  "sys_opendir p w =
     (case lookup_node w p of
        Some Dir \<Rightarrow>
          (let h = 1 + fold max (map fst (dirtab w)) 0
           in if h = 0 then (0, (emit (EvOpendir p) w)\<lparr>errno := 12\<rparr>)
              else (h, emit (EvOpendir p)
                         (w\<lparr>dirtab := dirtab w @ [(h, \<lparr>d_path = p, d_buf = None, d_pos = 0\<rparr>)]\<rparr>)))
      | Some _ \<Rightarrow> (0, (emit (EvOpendir p) w)\<lparr>errno := ENOTDIR\<rparr>)
      | None \<Rightarrow> (0, (emit (EvOpendir p) w)\<lparr>errno := ENOENT\<rparr>))"

definition set_stream :: "64 word \<Rightarrow> dirstream \<Rightarrow> world \<Rightarrow> world" where
  "set_stream h s w =
     w\<lparr>dirtab := map (\<lambda>(k, t). if k = h then (k, s) else (k, t)) (dirtab w)\<rparr>"

definition sys_readdir :: "64 word \<Rightarrow> world \<Rightarrow> fault + ((string \<times> node) option \<times> world)" where
  "sys_readdir h w =
     (if h = 0 then Inl NullDeref
      else
        (case map_of (dirtab w) h of
           None \<Rightarrow> Inr (None, w\<lparr>errno := EBADF\<rparr>)
         | Some s \<Rightarrow>
             (let buf = (case d_buf s of None \<Rightarrow> read_dir (files w) (d_path s) | Some b \<Rightarrow> b)
              in if d_pos s < length buf
                 then Inr (Some (buf ! d_pos s),
                           set_stream h (s\<lparr>d_buf := Some buf, d_pos := Suc (d_pos s)\<rparr>) w)
                 else Inr (None, set_stream h (s\<lparr>d_buf := Some buf\<rparr>) w))))"

definition sys_rewinddir :: "64 word \<Rightarrow> world \<Rightarrow> world" where
  "sys_rewinddir h w =
     (case map_of (dirtab w) h of
        None \<Rightarrow> w
      | Some s \<Rightarrow> emit (EvRewinddir (d_path s)) (set_stream h (s\<lparr>d_buf := None, d_pos := 0\<rparr>) w))"

definition sys_unlink :: "string \<Rightarrow> world \<Rightarrow> int \<times> world" where
  "sys_unlink p w =
     (case lookup_node w p of
        None \<Rightarrow> fail_with ENOENT (emit (EvUnlink p) w)
      | Some Dir \<Rightarrow> fail_with EISDIR (emit (EvUnlink p) w)
      | Some _ \<Rightarrow> (0, emit (EvUnlink p) (w\<lparr>files := filter (\<lambda>(q, n). q \<noteq> p) (files w)\<rparr>)))"

text \<open>\<open>creat(path, mode)\<close>: a new empty regular file, or an existing regular file cut
  to length 0. The parent directory is not looked up.\<close>

definition sys_creat :: "string \<Rightarrow> world \<Rightarrow> int \<times> world" where
  "sys_creat p w =
     (case lookup_node w p of
        None \<Rightarrow> (0, emit (EvCreate p) (w\<lparr>files := files w @ [(p, Reg [])]\<rparr>))
      | Some (Reg c) \<Rightarrow> (0, emit (EvCreate p) (w\<lparr>files := store_node p (Reg []) (files w)\<rparr>))
      | Some _ \<Rightarrow> fail_with EISDIR (emit (EvCreate p) w))"

text \<open>The number of entries a stream can still hand out: the measure of every loop
  over \<open>readdir\<close>.\<close>

definition remaining :: "64 word \<Rightarrow> world \<Rightarrow> nat" where
  "remaining h w =
     (case map_of (dirtab w) h of
        None \<Rightarrow> 0
      | Some s \<Rightarrow>
          (case d_buf s of
             None \<Rightarrow> length (read_dir (files w) (d_path s)) - d_pos s
           | Some b \<Rightarrow> length b - d_pos s))"

section \<open>Strings as the driver reads them\<close>

definition starts_with :: "string \<Rightarrow> string \<Rightarrow> bool" where
  "starts_with s pre = (take (length pre) s = pre)"

text \<open>\<open>strstr(haystack, needle) != NULL\<close>: the needle occurs somewhere in the haystack.\<close>

fun strstr :: "string \<Rightarrow> string \<Rightarrow> bool" where
  "strstr [] needle = (needle = [])"
| "strstr (c # cs) needle = (starts_with (c # cs) needle \<or> strstr cs needle)"

text \<open>\<open>std::string::find(needle)\<close>: the index of the first occurrence, \<open>None\<close> for
  \<open>npos\<close>.\<close>

fun str_find :: "string \<Rightarrow> string \<Rightarrow> nat option" where
  "str_find [] needle = (if needle = [] then Some 0 else None)"
| "str_find (c # cs) needle =
     (if starts_with (c # cs) needle then Some 0
      else map_option Suc (str_find cs needle))"

definition ends_with :: "string \<Rightarrow> string \<Rightarrow> bool" where
  "ends_with s suf = (length suf \<le> length s \<and> drop (length s - length suf) s = suf)"

section \<open>What UtilsPrivate.h declares\<close>

text \<open>
  sqlfs.cpp includes UtilsPrivate.h and calls helpers, collaborators and constants that
  are defined outside this file. They are the fields of \<open>env\<close>, so every result below
  holds for whatever they compute. The fields that act on the backing store take and
  return the state.
\<close>

record ServerInfo =
  m_hostname :: string
  m_username :: string
  m_password :: string
  m_version :: int
  m_customQueriesPath :: string

record env =
  CUSTOM_QUERY_FOLDER_NAME :: string
  m_dumpPath :: string
  CalculateDumpPath :: "string \<Rightarrow> string"
  IsDbfsFile :: "string \<Rightarrow> bool"
  Split :: "string \<Rightarrow> char \<Rightarrow> string list"
  g_ServerInfoMap :: "(string \<times> ServerInfo) list"
  ExecuteQuery :: "string \<Rightarrow> string \<Rightarrow> string \<Rightarrow> string \<Rightarrow> FileFormat \<Rightarrow> int \<times> string"
  ExecuteCustomQuery :: "string \<Rightarrow> string \<Rightarrow> string \<Rightarrow> string \<Rightarrow> string \<Rightarrow> world \<Rightarrow> int \<times> world"
  CreateDbfsFiles :: "string \<Rightarrow> string \<Rightarrow> string \<Rightarrow> string \<Rightarrow> int \<Rightarrow> world \<Rightarrow> world"
  listFiles :: "string \<Rightarrow> string list"

record fuse_file_info =
  flags :: int
  fh :: "64 word"

text \<open>\<open>fi->fh\<close> is a \<open>uint64_t\<close>; descriptors are \<open>int\<close>. Storing converts modulo
  \<open>2^64\<close>, reading back keeps the low 32 bits as a signed value.\<close>

definition fd_to_fh :: "int \<Rightarrow> 64 word" where
  "fd_to_fh fd = word_of_int fd"

definition fh_to_fd :: "64 word \<Rightarrow> int" where
  "fh_to_fd h = sint (ucast h :: 32 word)"

definition GetServerInfo :: "env \<Rightarrow> string \<Rightarrow> ServerInfo option" where
  \<comment> \<open>Modelled from the spec: GetServerInfo is not in sqlfs.cpp; the spec's
     \<open>lookup(name) \<rightarrow> ServerEntry | absent\<close> on the registry.\<close>
  "GetServerInfo e servername = map_of (g_ServerInfoMap e) servername"

definition GetServerDetails :: "env \<Rightarrow> string \<Rightarrow> string \<times> string \<times> string" where
  \<comment> \<open>Modelled from the spec: GetServerDetails is not in sqlfs.cpp; it fills the three
     out-parameters from the server's entry, and leaves them empty for an unknown name.\<close>
  "GetServerDetails e servername =
     (case GetServerInfo e servername of
        Some si \<Rightarrow> (m_hostname si, m_username si, m_password si)
      | None \<Rightarrow> ([], [], []))"

definition ReturnErrnoAndPrintError :: "string \<Rightarrow> string \<Rightarrow> world \<Rightarrow> int \<times> world" where
  \<comment> \<open>Modelled from the spec: ReturnErrnoAndPrintError is not in sqlfs.cpp; every caller
     documents "0 on success and -errno on error", so it logs and returns \<open>-errno\<close>.\<close>
  "ReturnErrnoAndPrintError func msg w = (- errno w, emit (EvPrint (func @ '': '' @ msg)) w)"

definition PrintMsg :: "string \<Rightarrow> world \<Rightarrow> world" where
  "PrintMsg msg w = emit (EvPrint msg) w"

section \<open>The callbacks of sqlfs.cpp\<close>

definition TruncateLocalImpl :: "env \<Rightarrow> string \<Rightarrow> nat \<Rightarrow> world \<Rightarrow> int \<times> world" where
  "TruncateLocalImpl e path n w =
     (let fpath = CalculateDumpPath e path;
          (result, w1) = sys_truncate fpath n w
      in if result = -1 then ReturnErrnoAndPrintError ''TruncateLocalImpl'' ''truncate failed'' w1
         else (result, w1))"

text \<open>\<open>fi\<close> is a pointer: \<open>None\<close> is the null pointer. The branch taken for a null
  \<open>fi\<close> evaluates \<open>open(fpath.c_str(), fi->flags)\<close>: the argument \<open>fi->flags\<close> reads
  through the null pointer before \<open>open\<close> is entered, so the branch ends in the fault
  and the lines after the call are never reached.\<close>

definition GetFileDescriptorForPath ::
  "env \<Rightarrow> string \<Rightarrow> fuse_file_info option \<Rightarrow> world \<Rightarrow> fault + (int \<times> world)" where
  "GetFileDescriptorForPath e path fi w =
     (case fi of
        None \<Rightarrow> (let fpath = CalculateDumpPath e path in Inl NullDeref)
      | Some i \<Rightarrow> Inr (fh_to_fd (fh i), w))"

definition CloseFileDesciptorIfOpened :: "fuse_file_info option \<Rightarrow> int \<Rightarrow> world \<Rightarrow> world" where
  "CloseFileDesciptorIfOpened fi fd w =
     (case fi of
        None \<Rightarrow>
          (let (result, w1) = sys_close fd w
           in if result \<noteq> 0
              then snd (ReturnErrnoAndPrintError ''CloseFileDesciptorIfOpened'' ''close failed'' w1)
              else w1)
      | Some i \<Rightarrow> w)"

definition json_tail :: string where
  "json_tail = ''] FOR JSON AUTO, ROOT('' @ [CHR 0x27] @ ''info'' @ [CHR 0x27] @ '')''"

text \<open>Lines 692 to 710 of GetDmvFileContent: the format and the query text from the
  file name.\<close>

definition dmv_query :: "string \<Rightarrow> FileFormat \<times> string" where
  "dmv_query filename =
     (case str_find filename ''.json'' of
        Some found \<Rightarrow>
          (TYPE_JSON, ''SELECT * FROM [master].[sys].['' @ take found filename @ json_tail)
      | None \<Rightarrow>
          (TYPE_TSV, ''SELECT * FROM [master].[sys].['' @ filename @ '']''))"

definition GetDmvFileContent :: "env \<Rightarrow> string \<Rightarrow> world \<Rightarrow> fault + (int \<times> world)" where
  "GetDmvFileContent e path w =
     (let dumpPath = CalculateDumpPath e path;
          (fd, w1) = sys_open dumpPath O_WRONLY w
      in if fd \<noteq> -1 then
           (let tokens = Split e path (CHR ''/'') in
            if \<not> 1 < length tokens then Inl AssertFailed
            else
              (let servername = tokens ! 0;
                   filename = tokens ! 1;
                   (ftype, query) = dmv_query filename;
                   (hostname, username, password) = GetServerDetails e servername;
                   (error, responseString) = ExecuteQuery e query hostname username password ftype;
                   w2 = emit (EvExecuteQuery query hostname username password ftype) w1
               in if error = 0 then
                    (let (n, w3) = sys_pwrite fd responseString 0 w2;
                         (error1, w4) =
                           (if n = -1
                            then ReturnErrnoAndPrintError ''GetDmvFileContent'' ''pwrite failed'' w3
                            else (error, w3));
                         (r, w5) = sys_close fd w4
                     in Inr (error1, w5))
                  else
                    (let w3 = PrintMsg ''Querying the SQL failed.'' w2;
                         (r, w4) = sys_close fd w3
                     in Inr (error, w4))))
         else Inr (ReturnErrnoAndPrintError ''GetDmvFileContent'' ''open failed'' w1))"

text \<open>Lines 794 to 840 of OpenLocalImpl: what open does for a dbfs file once the
  descriptor is stored. \<open>tokens[2]\<close> is read between the two assertions. The value of
  \<open>ExecuteCustomQuery\<close> is not used.\<close>

definition OpenLocalImpl_fetch :: "env \<Rightarrow> string \<Rightarrow> string \<Rightarrow> world \<Rightarrow> fault + (int \<times> world)" where
  "OpenLocalImpl_fetch e path fpath w =
     (if IsDbfsFile e path then
        (if strstr path (CUSTOM_QUERY_FOLDER_NAME e) then
           (let tokens = Split e path (CHR ''/'') in
            if \<not> 1 < length tokens then Inl AssertFailed
            else if \<not> 2 < length tokens then Inl OutOfRange
            else if tokens ! 1 \<noteq> CUSTOM_QUERY_FOLDER_NAME e then Inl AssertFailed
            else
              (let servername = tokens ! 0; filename = tokens ! 2 in
               case GetServerInfo e servername of
                 Some serverInfo \<Rightarrow>
                   (let userQueriesPath = m_customQueriesPath serverInfo in
                    if userQueriesPath \<noteq> [] then
                      (let queryFilePath = userQueriesPath @ ''/'' @ filename;
                           (r, w1) = ExecuteCustomQuery e queryFilePath fpath
                                       (m_hostname serverInfo) (m_username serverInfo)
                                       (m_password serverInfo)
                                       (emit (EvExecuteCustomQuery queryFilePath fpath) w)
                       in Inr (0, w1))
                    else Inr (0, w))
               | None \<Rightarrow> Inr (0, w)))
         else GetDmvFileContent e path w)
      else Inr (0, w))"

definition OpenLocalImpl ::
  "env \<Rightarrow> string \<Rightarrow> fuse_file_info \<Rightarrow> world \<Rightarrow> fault + (int \<times> fuse_file_info \<times> world)" where
  "OpenLocalImpl e path fi w =
     (let fpath = CalculateDumpPath e path;
          (fd, w1) = sys_open fpath (flags fi) w;
          (error, w2) =
            (if fd = -1 then ReturnErrnoAndPrintError ''OpenLocalImpl'' ''open failed'' w1
             else (0, w1));
          fi1 = (if fd = -1 then fi else fi\<lparr>fh := fd_to_fh fd\<rparr>)
      in case (if error = 0 then OpenLocalImpl_fetch e path fpath w2 else Inr (error, w2)) of
           Inl f \<Rightarrow> Inl f
         | Inr (error1, w3) \<Rightarrow>
             (if error1 \<noteq> 0 \<and> fd \<noteq> -1
              then (let (r, w4) = sys_close fd w3
                    in Inr (error1, fi1\<lparr>fh := fd_to_fh (-1)\<rparr>, w4))
              else Inr (error1, fi1, w3)))"

definition ReadLocalImpl ::
  "env \<Rightarrow> string \<Rightarrow> nat \<Rightarrow> nat \<Rightarrow> fuse_file_info option \<Rightarrow> world
     \<Rightarrow> fault + ((int \<times> string) \<times> world)" where
  "ReadLocalImpl e path cnt off fi w =
     (case GetFileDescriptorForPath e path fi w of
        Inl f \<Rightarrow> Inl f
      | Inr (fd, w1) \<Rightarrow>
          (if fd \<noteq> -1 then
             (let ((n, buf), w2) = sys_pread fd cnt off w1;
                  (result, w3) =
                    (if n = -1 then ReturnErrnoAndPrintError ''ReadLocalImpl'' ''pread failed'' w2
                     else (n, w2))
              in Inr ((result, buf), CloseFileDesciptorIfOpened fi fd w3))
           else Inr ((-1, []), w1)))"

definition WriteLocalImpl ::
  "env \<Rightarrow> string \<Rightarrow> string \<Rightarrow> nat \<Rightarrow> nat \<Rightarrow> fuse_file_info option \<Rightarrow> world
     \<Rightarrow> fault + (int \<times> world)" where
  "WriteLocalImpl e path buf cnt off fi w =
     (if \<not> IsDbfsFile e path then
        (case GetFileDescriptorForPath e path fi w of
           Inl f \<Rightarrow> Inl f
         | Inr (fd, w1) \<Rightarrow>
             (if fd \<noteq> -1 then
                (let (n, w2) = sys_pwrite fd (take cnt buf) off w1;
                     (result, w3) =
                       (if n = -1 then ReturnErrnoAndPrintError ''WriteLocalImpl'' ''pwrite failed'' w2
                        else (n, w2))
                 in Inr (result, CloseFileDesciptorIfOpened fi fd w3))
              else Inr (0, w1)))
      else Inr (- EPERM, PrintMsg ''Cannot write to the dbfs files.'' w))"

definition ReleaseLocalImpl :: "env \<Rightarrow> string \<Rightarrow> fuse_file_info \<Rightarrow> world \<Rightarrow> int \<times> world" where
  "ReleaseLocalImpl e path fi w =
     (let (result, w1) =
            (if IsDbfsFile e path then
               (let (r, wa) = TruncateLocalImpl e path 0 w
                in if r = -1
                   then ReturnErrnoAndPrintError ''ReleaseLocalImpl'' ''TruncateLocalImpl failed'' wa
                   else (r, wa))
             else (0, w));
          (result1, w2) = sys_close (fh_to_fd (fh fi)) w1
      in if result1 = -1 then ReturnErrnoAndPrintError ''ReleaseLocalImpl'' ''close failed'' w2
         else (result1, w2))"

definition FallocateLocalImpl ::
  "env \<Rightarrow> string \<Rightarrow> int \<Rightarrow> nat \<Rightarrow> nat \<Rightarrow> fuse_file_info option \<Rightarrow> world
     \<Rightarrow> fault + (int \<times> world)" where
  "FallocateLocalImpl e path mode off len fi w =
     (case GetFileDescriptorForPath e path fi w of
        Inl f \<Rightarrow> Inl f
      | Inr (fd, w1) \<Rightarrow>
          (if fd \<noteq> -1 then
             (let (result, w2) =
                    (if mode \<noteq> 0 then (- EOPNOTSUPP, w1)
                     else (let (r, wa) = sys_posix_fallocate fd off len w1 in (- r, wa)))
              in Inr (result, CloseFileDesciptorIfOpened fi fd w2))
           else Inr (0, w1)))"

text \<open>Modelled from the spec: KillSelf is not in sqlfs.cpp; the spec says that the
  process terminates, which is the fault \<open>Killed\<close> here.\<close>

definition InitializeSQLFs :: "env \<Rightarrow> world \<Rightarrow> fault + world" where
  "InitializeSQLFs e w =
     (let (result, w1) = sys_mkdir (m_dumpPath e) w
      in if result = -1 then Inl Killed
         else Inr (fold (\<lambda>(name, entry). CreateDbfsFiles e name (m_hostname entry)
                           (m_username entry) (m_password entry) (m_version entry))
                        (g_ServerInfoMap e) w1))"

section \<open>Directory callbacks\<close>

lemma map_of_set_stream:
  "map_of (dirtab w) h = Some s0 \<Longrightarrow> map_of (dirtab (set_stream h s w)) h = Some s"
proof -
  have "map_of tab h = Some s0 \<Longrightarrow>
        map_of (map (\<lambda>(k, t). if k = h then (k, s) else (k, t)) tab) h = Some s" for tab
    by (induction tab) (auto split: if_splits)
  then show "map_of (dirtab w) h = Some s0 \<Longrightarrow> map_of (dirtab (set_stream h s w)) h = Some s"
    by (simp add: set_stream_def)
qed

lemma sys_readdir_Some:
  assumes "sys_readdir h w = Inr (Some de, w1)"
  shows "\<exists>s b. map_of (dirtab w1) h = Some s \<and> d_buf s = Some b \<and> d_pos s \<le> length b
            \<and> remaining h w = Suc (length b - d_pos s) \<and> files w1 = files w"
  using assms
  by (auto simp: sys_readdir_def remaining_def Let_def set_stream_def
        dest!: map_of_set_stream [where w = w and h = h]
        split: option.splits if_splits)


lemma remaining_after_readdir:
  assumes "sys_readdir h w = Inr (Some de, w1)" and "dirtab w2 = dirtab w1"
  shows "remaining h w2 < remaining h w"
proof -
  from sys_readdir_Some [OF assms(1)] obtain s b where
    "map_of (dirtab w1) h = Some s" "d_buf s = Some b" "remaining h w = Suc (length b - d_pos s)"
    by blast
  then show ?thesis using assms(2) by (simp add: remaining_def)
qed

lemma sys_unlink_dirtab: "dirtab (snd (sys_unlink p w)) = dirtab w"
  by (simp add: sys_unlink_def fail_with_def emit_def split: option.splits node.splits)

text \<open>The loop of ReaddirLocalImpl: \<open>filler\<close> answers whether the reply buffer is full;
  an entry is handed over as its name and its type.\<close>

function readdir_loop ::
  "((string \<times> node) list \<Rightarrow> string \<times> node \<Rightarrow> bool) \<Rightarrow> 64 word \<Rightarrow> (string \<times> node) list \<Rightarrow> world
     \<Rightarrow> fault + ((string \<times> node) list \<times> world)" where
  "readdir_loop filler dp buf w =
     (case sys_readdir dp w of
        Inl f \<Rightarrow> Inl f
      | Inr (None, w1) \<Rightarrow> Inr (buf, w1)
      | Inr (Some de, w1) \<Rightarrow>
          (if filler buf de then Inr (buf, w1) else readdir_loop filler dp (buf @ [de]) w1))"
  by pat_completeness auto
termination
  by (relation "measure (\<lambda>(filler, dp, buf, w). remaining dp w)")
     (auto intro: remaining_after_readdir [OF sym])

text \<open>Modelled from the spec: RemoveCustomQueriesOutputFiles is not in sqlfs.cpp. The
  spec: "delete every regular file currently present in the backing custom-query
  directory"; it is handed the open stream and the directory's path.\<close>

function RemoveCustomQueriesOutputFiles :: "64 word \<Rightarrow> string \<Rightarrow> world \<Rightarrow> fault + world" where
  "RemoveCustomQueriesOutputFiles dp fpath w =
     (case sys_readdir dp w of
        Inl f \<Rightarrow> Inl f
      | Inr (None, w1) \<Rightarrow> Inr w1
      | Inr (Some (nm, n), w1) \<Rightarrow>
          RemoveCustomQueriesOutputFiles dp fpath
            (case n of Reg c \<Rightarrow> snd (sys_unlink (fpath @ ''/'' @ nm) w1) | _ \<Rightarrow> w1))"
  by pat_completeness auto
termination
  by (relation "measure (\<lambda>(dp, fpath, w). remaining dp w)")
     (auto intro: remaining_after_readdir [OF sym] simp: sys_unlink_dirtab split: node.splits)


declare readdir_loop.simps [simp del] RemoveCustomQueriesOutputFiles.simps [simp del]

text \<open>Modelled from the spec: the listing of a server's custom-query source directory
  (the spec's \<open>listFiles(dirPath)\<close> on the registry entry); a server that is not
  registered or has no source directory has no entries.\<close>

definition source_entries :: "env \<Rightarrow> string \<Rightarrow> string list" where
  "source_entries e servername =
     (case GetServerInfo e servername of
        None \<Rightarrow> []
      | Some si \<Rightarrow>
          (if m_customQueriesPath si = [] then [] else listFiles e (m_customQueriesPath si)))"

text \<open>Modelled from the spec: CreateCustomQueriesOutputFiles is not in sqlfs.cpp. The
  spec: "re-read the server's configured custom-query source directory; for every entry
  found there, create a same-named zero-length placeholder file in the backing
  custom-query directory".\<close>

definition CreateCustomQueriesOutputFiles :: "env \<Rightarrow> string \<Rightarrow> string \<Rightarrow> world \<Rightarrow> world" where
  "CreateCustomQueriesOutputFiles e servername fpath w =
     fold (\<lambda>nm v. snd (sys_creat (fpath @ ''/'' @ nm) v)) (source_entries e servername) w"

definition OpendirLocalImpl ::
  "env \<Rightarrow> string \<Rightarrow> fuse_file_info \<Rightarrow> world \<Rightarrow> fault + (int \<times> fuse_file_info \<times> world)" where
  "OpendirLocalImpl e path fi w =
     (let fpath = CalculateDumpPath e path;
          (dp, w1) = sys_opendir fpath w
      in if dp \<noteq> 0 then
           (let fi1 = fi\<lparr>fh := dp\<rparr> in
            if strstr path (CUSTOM_QUERY_FOLDER_NAME e) then
              (case RemoveCustomQueriesOutputFiles dp fpath w1 of
                 Inl f \<Rightarrow> Inl f
               | Inr w2 \<Rightarrow>
                   (let w3 = sys_rewinddir dp w2;
                        tokens = Split e path (CHR ''/'')
                    in if \<not> 1 < length tokens then Inl AssertFailed
                       else if tokens ! 1 \<noteq> CUSTOM_QUERY_FOLDER_NAME e then Inl AssertFailed
                       else Inr (0, fi1, CreateCustomQueriesOutputFiles e (tokens ! 0) fpath w3)))
            else Inr (0, fi1, w1))
         else (let (failed, w2) = ReturnErrnoAndPrintError ''OpendirLocalImpl'' ''opendir failed'' w1
               in Inr (failed, fi\<lparr>fh := 0\<rparr>, w2)))"

definition ReaddirLocalImpl ::
  "((string \<times> node) list \<Rightarrow> string \<times> node \<Rightarrow> bool) \<Rightarrow> fuse_file_info \<Rightarrow> world
     \<Rightarrow> fault + (int \<times> (string \<times> node) list \<times> world)" where
  "ReaddirLocalImpl filler fi w =
     (let dp = fh fi;
          (result, w1) =
            (if dp = 0 then ReturnErrnoAndPrintError ''ReaddirLocalImpl'' ''opendir failed'' w
             else (0, w))
      in if result = 0 then
           (case readdir_loop filler dp [] w1 of
              Inl f \<Rightarrow> Inl f
            | Inr (buf, w2) \<Rightarrow> Inr (result, buf, w2))
         else Inr (result, [], w1))"

text \<open>The two passthrough callbacks that change what a directory holds.\<close>

definition MkdirLocalImpl :: "env \<Rightarrow> string \<Rightarrow> world \<Rightarrow> int \<times> world" where
  "MkdirLocalImpl e path w =
     (let fpath = CalculateDumpPath e path;
          (result, w1) = sys_mkdir fpath w
      in if result = -1 then ReturnErrnoAndPrintError ''MkdirLocalImpl'' ''mkdir failed'' w1
         else (result, w1))"

definition UnlinkLocalImpl :: "env \<Rightarrow> string \<Rightarrow> world \<Rightarrow> int \<times> world" where
  "UnlinkLocalImpl e path w =
     (let fpath = CalculateDumpPath e path;
          (result, w1) = sys_unlink fpath w
      in if result = -1 then ReturnErrnoAndPrintError ''UnlinkLocalImpl'' ''unlink failed'' w1
         else (result, w1))"

section \<open>The reconciliation on the list of files\<close>

text \<open>
  What the native calls of the reconciliation do to the list of backing files, as
  functions on the list: \<open>unlink_fs\<close> and \<open>creat_fs\<close> are \<open>unlink\<close> and \<open>creat\<close>,
  \<open>ustep\<close> is one round of the delete loop and \<open>cstep\<close> one round of the create loop.
  \<open>valid_name\<close> says that a string is a file name (not empty, no \<open>/\<close>, not \<open>.\<close> or \<open>..\<close>);
  \<open>reg_or_absent fs p\<close> says that \<open>p\<close> is free or a regular file in \<open>fs\<close>;
  \<open>stream_buf\<close> is the buffer a stream reads from at its next \<open>readdir\<close>.
\<close>

definition dir_path :: "string \<Rightarrow> string \<Rightarrow> string" where
  "dir_path d nm = d @ ''/'' @ nm"

definition valid_name :: "string \<Rightarrow> bool" where
  "valid_name nm = (nm \<noteq> [] \<and> CHR ''/'' \<notin> set nm \<and> nm \<noteq> ''.'' \<and> nm \<noteq> ''..'')"

definition unlink_fs :: "string \<Rightarrow> (string \<times> node) list \<Rightarrow> (string \<times> node) list" where
  "unlink_fs p fs =
     (case map_of fs p of None \<Rightarrow> fs | Some Dir \<Rightarrow> fs | Some _ \<Rightarrow> filter (\<lambda>(q, n). q \<noteq> p) fs)"

definition creat_fs :: "string \<Rightarrow> (string \<times> node) list \<Rightarrow> (string \<times> node) list" where
  "creat_fs p fs =
     (case map_of fs p of
        None \<Rightarrow> fs @ [(p, Reg [])]
      | Some (Reg c) \<Rightarrow> store_node p (Reg []) fs
      | Some _ \<Rightarrow> fs)"

definition ustep :: "string \<Rightarrow> string \<times> node \<Rightarrow> (string \<times> node) list \<Rightarrow> (string \<times> node) list" where
  "ustep d = (\<lambda>(nm, n) fs. case n of Reg c \<Rightarrow> unlink_fs (dir_path d nm) fs | _ \<Rightarrow> fs)"

definition regpaths :: "string \<Rightarrow> (string \<times> node) list \<Rightarrow> string set" where
  "regpaths d ents = {dir_path d nm | nm c. (nm, Reg c) \<in> set ents}"

definition cstep :: "string \<Rightarrow> string \<Rightarrow> (string \<times> node) list \<Rightarrow> (string \<times> node) list" where
  "cstep d = (\<lambda>nm fs. creat_fs (dir_path d nm) fs)"

definition reg_or_absent :: "(string \<times> node) list \<Rightarrow> string \<Rightarrow> bool" where
  "reg_or_absent fs p = (case map_of fs p of None \<Rightarrow> True | Some (Reg c) \<Rightarrow> True | Some _ \<Rightarrow> False)"

definition stream_buf :: "dirstream \<Rightarrow> world \<Rightarrow> (string \<times> node) list" where
  "stream_buf s w = (case d_buf s of None \<Rightarrow> read_dir (files w) (d_path s) | Some b \<Rightarrow> b)"

definition drop_regular :: "string \<Rightarrow> (string \<times> node) list \<Rightarrow> (string \<times> node) list" where
  "drop_regular d fs = filter (\<lambda>(q, n). q \<notin> regpaths d (list_dir fs d)) fs"

section \<open>A concrete mount\<close>

text \<open>Modelled from the spec: Split is not in sqlfs.cpp. The spec splits a path into
  its \<open>/\<close>-delimited segments with the server name as segment 0; the paths FUSE hands
  over start with \<open>/\<close>, so empty segments are dropped.\<close>

fun Split_from :: "string \<Rightarrow> char \<Rightarrow> string \<Rightarrow> string list" where
  "Split_from [] d cur = (if cur = [] then [] else [cur])"
| "Split_from (c # cs) d cur =
     (if c = d then (if cur = [] then [] else [cur]) @ Split_from cs d []
      else Split_from cs d (cur @ [c]))"

definition Split_spec :: "string \<Rightarrow> char \<Rightarrow> string list" where
  "Split_spec s d = Split_from s d []"

text \<open>Modelled from the spec: IsDbfsFile is not in sqlfs.cpp. The spec's classifier:
  a path is a MetadataFile or a CustomQueryFile when it has at least two segments, and
  at least three when segment 1 is the custom-query folder.\<close>

definition IsDbfsFile_spec :: "string \<Rightarrow> string \<Rightarrow> bool" where
  "IsDbfsFile_spec cq path =
     (let tokens = Split_spec path (CHR ''/'')
      in if 2 \<le> length tokens \<and> tokens ! 1 = cq then 3 \<le> length tokens
         else 2 \<le> length tokens)"

definition srv_info :: ServerInfo where
  "srv_info = \<lparr>m_hostname = ''host1'', m_username = ''sa'', m_password = ''pw'',
                m_version = 16, m_customQueriesPath = ''/home/u/queries''\<rparr>"

definition env0 :: env where
  "env0 = \<lparr>CUSTOM_QUERY_FOLDER_NAME = ''customQueries'',
            m_dumpPath = ''/dump'',
            CalculateDumpPath = (\<lambda>p. ''/dump'' @ p),
            IsDbfsFile = IsDbfsFile_spec ''customQueries'',
            Split = Split_spec,
            g_ServerInfoMap = [(''srv'', srv_info)],
            ExecuteQuery = (\<lambda>q h u p t. (0, ''0123456789'')),
            ExecuteCustomQuery = (\<lambda>qf out h u p w.
               (0, w\<lparr>files := store_node out (Reg ''result'') (files w)\<rparr>)),
            CreateDbfsFiles = (\<lambda>n h u p v w. w),
            listFiles = (\<lambda>d. if d = ''/home/u/queries'' then [''a.sql'', ''b.sql''] else [])\<rparr>"

definition world0 :: world where
  "world0 = \<lparr>files = [(''/dump'', Dir), (''/dump/srv'', Dir),
                       (''/dump/srv/dm_os_info'', Reg ''stale content''),
                       (''/dump/srv/dm_os_info.json'', Reg []),
                       (''/dump/srv/notes.json.bak'', Reg []),
                       (''/dump/srv/customQueries'', Dir),
                       (''/dump/srv/customQueries/old.sql'', Reg ''old''),
                       (''/dump/plain.txt'', Reg ''abc'')],
              fdtab = [], dirtab = [], errno = 0, wcap = 4096, trace = []\<rparr>"

definition fi0 :: fuse_file_info where
  "fi0 = \<lparr>flags = 0, fh = 0\<rparr>"

text \<open>States and collaborators used to run the callbacks: a held descriptor 3 on a
  metadata file, the same descriptor on a file that has been unlinked since, a
  custom-query collaborator that fails, and a store with a metadata file and a server
  directory whose names contain the custom-query folder name.\<close>

definition worldA :: world where
  "worldA = world0\<lparr>fdtab := [(3, ''/dump/srv/dm_os_info'')]\<rparr>"

definition fiA :: fuse_file_info where
  "fiA = \<lparr>flags = 0, fh = 3\<rparr>"

definition worldB :: world where
  "worldB = world0\<lparr>fdtab := [(3, ''/dump/srv/gone'')]\<rparr>"

definition env_cq_fails :: env where
  "env_cq_fails = env0\<lparr>ExecuteCustomQuery := (\<lambda>qf out h u p w. (-1, w))\<rparr>"

definition worldC :: world where
  "worldC = world0\<lparr>files := files world0 @ [(''/dump/srv/dm_customQueries_stats'', Reg []),
                                              (''/dump/customQueries2'', Dir)]\<rparr>"

text \<open>The handle and the state that opendir of \<open>/srv/customQueries\<close> returns in
  \<open>world0\<close>.\<close>

definition fiD :: fuse_file_info where
  "fiD = \<lparr>flags = 0, fh = 1\<rparr>"

definition worldD :: world where
  "worldD = \<lparr>files = [(''/dump'', Dir), (''/dump/srv'', Dir),
                       (''/dump/srv/dm_os_info'', Reg ''stale content''),
                       (''/dump/srv/dm_os_info.json'', Reg []),
                       (''/dump/srv/notes.json.bak'', Reg []),
                       (''/dump/srv/customQueries'', Dir),
                       (''/dump/plain.txt'', Reg ''abc''),
                       (''/dump/srv/customQueries/a.sql'', Reg []),
                       (''/dump/srv/customQueries/b.sql'', Reg [])],
              fdtab = [],
              dirtab = [(1, \<lparr>d_path = ''/dump/srv/customQueries'', d_buf = None, d_pos = 0\<rparr>)],
              errno = 0, wcap = 4096,
              trace = [EvOpendir ''/dump/srv/customQueries'',
                       EvUnlink ''/dump/srv/customQueries/old.sql'',
                       EvRewinddir ''/dump/srv/customQueries'',
                       EvCreate ''/dump/srv/customQueries/a.sql'',
                       EvCreate ''/dump/srv/customQueries/b.sql'']\<rparr>"

text \<open>For release: descriptor 3 held on a custom-query file and on a plain file, and
  the states that follow when the metadata file of \<open>worldA\<close> is unlinked while it is
  held, then released, then opened again.\<close>

definition worldQ :: world where
  "worldQ = world0\<lparr>fdtab := [(3, ''/dump/srv/customQueries/old.sql'')]\<rparr>"

definition worldP :: world where
  "worldP = world0\<lparr>fdtab := [(3, ''/dump/plain.txt'')]\<rparr>"

definition worldU :: world where
  "worldU = \<lparr>files = [(''/dump'', Dir), (''/dump/srv'', Dir),
                       (''/dump/srv/dm_os_info.json'', Reg []),
                       (''/dump/srv/notes.json.bak'', Reg []),
                       (''/dump/srv/customQueries'', Dir),
                       (''/dump/srv/customQueries/old.sql'', Reg ''old''),
                       (''/dump/plain.txt'', Reg ''abc'')],
              fdtab = [(3, ''/dump/srv/dm_os_info'')], dirtab = [], errno = 0, wcap = 4096,
              trace = [EvUnlink ''/dump/srv/dm_os_info'']\<rparr>"

definition worldU_released :: world where
  "worldU_released = worldU\<lparr>fdtab := [], errno := 2,
      trace := [EvUnlink ''/dump/srv/dm_os_info'', EvTruncate ''/dump/srv/dm_os_info'' 0,
                EvPrint ''TruncateLocalImpl: truncate failed'', EvClose 3]\<rparr>"

definition worldU_reopened :: world where
  "worldU_reopened = worldU_released\<lparr>
      trace := [EvUnlink ''/dump/srv/dm_os_info'', EvTruncate ''/dump/srv/dm_os_info'' 0,
                EvPrint ''TruncateLocalImpl: truncate failed'', EvClose 3,
                EvOpen ''/dump/srv/dm_os_info'' 0 (- 1),
                EvPrint ''OpenLocalImpl: open failed'']\<rparr>"

text \<open>A registry whose server has no custom-query source directory, and what release
  and the next open leave of \<open>worldQ\<close> there.\<close>

definition env_no_dir :: env where
  "env_no_dir = env0\<lparr>g_ServerInfoMap := [(''srv'', srv_info\<lparr>m_customQueriesPath := []\<rparr>)]\<rparr>"

definition worldQ_released :: world where
  "worldQ_released =
     world0\<lparr>files := [(''/dump'', Dir), (''/dump/srv'', Dir),
                         (''/dump/srv/dm_os_info'', Reg ''stale content''),
                         (''/dump/srv/dm_os_info.json'', Reg []),
                         (''/dump/srv/notes.json.bak'', Reg []),
                         (''/dump/srv/customQueries'', Dir),
                         (''/dump/srv/customQueries/old.sql'', Reg []),
                         (''/dump/plain.txt'', Reg ''abc'')],
             trace := [EvTruncate ''/dump/srv/customQueries/old.sql'' 0, EvClose 3]\<rparr>"

definition worldQ_reopened :: world where
  "worldQ_reopened =
     worldQ_released\<lparr>fdtab := [(3, ''/dump/srv/customQueries/old.sql'')],
        trace := [EvTruncate ''/dump/srv/customQueries/old.sql'' 0, EvClose 3,
                  EvOpen ''/dump/srv/customQueries/old.sql'' 0 3]\<rparr>"

text \<open>For opendir: the state after \<open>mkdir\<close> of \<open>/srv/customQueries/a.sql\<close> in \<open>world0\<close>,
  and the state that opendir of \<open>/srv/customQueries\<close> returns from there.\<close>

definition worldE :: world where
  "worldE = world0\<lparr>files := files world0 @ [(''/dump/srv/customQueries/a.sql'', Dir)],
                    trace := [EvMkdir ''/dump/srv/customQueries/a.sql'']\<rparr>"

definition worldE_opened :: world where
  "worldE_opened =
     \<lparr>files = [(''/dump'', Dir), (''/dump/srv'', Dir),
               (''/dump/srv/dm_os_info'', Reg ''stale content''),
               (''/dump/srv/dm_os_info.json'', Reg []),
               (''/dump/srv/notes.json.bak'', Reg []),
               (''/dump/srv/customQueries'', Dir),
               (''/dump/plain.txt'', Reg ''abc''),
               (''/dump/srv/customQueries/a.sql'', Dir),
               (''/dump/srv/customQueries/b.sql'', Reg [])],
      fdtab = [],
      dirtab = [(1, \<lparr>d_path = ''/dump/srv/customQueries'', d_buf = None, d_pos = 0\<rparr>)],
      errno = 21, wcap = 4096,
      trace = [EvMkdir ''/dump/srv/customQueries/a.sql'',
               EvOpendir ''/dump/srv/customQueries'',
               EvUnlink ''/dump/srv/customQueries/old.sql'',
               EvRewinddir ''/dump/srv/customQueries'',
               EvCreate ''/dump/srv/customQueries/a.sql'',
               EvCreate ''/dump/srv/customQueries/b.sql'']\<rparr>"

section \<open>Facts about the backing store\<close>

lemma sys_truncate_fdtab: "fdtab (snd (sys_truncate p n w)) = fdtab w"
  by (simp add: sys_truncate_def fail_with_def emit_def split: option.splits node.splits)

lemma TruncateLocalImpl_fdtab: "fdtab (snd (TruncateLocalImpl e path n w)) = fdtab w"
  using sys_truncate_fdtab [of "CalculateDumpPath e path" n w]
  by (auto simp add: TruncateLocalImpl_def ReturnErrnoAndPrintError_def emit_def Let_def
        split: prod.splits)

lemma map_of_store_node: "map_of (store_node p n fs) p = Some n"
proof (cases "p \<in> fst ` set fs")
  case True
  then show ?thesis
    by (induction fs) (auto simp: store_node_def)
next
  case False
  then have "map_of fs p = None" by (simp add: map_of_eq_None_iff)
  with False show ?thesis
    by (simp add: store_node_def map_add_def)
qed

lemma map_of_replace_other:
  "q \<noteq> p \<Longrightarrow> map_of (map (\<lambda>(q, m). if q = p then (q, n) else (q, m)) fs) q = map_of fs q"
  by (induction fs) auto

lemma map_of_store_node_other: "q \<noteq> p \<Longrightarrow> map_of (store_node p n fs) q = map_of fs q"
  by (auto simp add: store_node_def map_of_replace_other map_add_def split: option.splits)

lemma sys_truncate_reg:
  "lookup_node w p = Some (Reg c) \<Longrightarrow>
   sys_truncate p n w =
     (0, emit (EvTruncate p n) (w\<lparr>files := store_node p (Reg (resize n c)) (files w)\<rparr>))"
  by (simp add: sys_truncate_def)

lemmas mount0_defs =
  env0_def world0_def fi0_def srv_info_def IsDbfsFile_spec_def Split_spec_def

lemmas native_defs =
  sys_open_def sys_close_def sys_truncate_def sys_pwrite_def sys_mkdir_def lookup_node_def
  store_node_def next_fd_def emit_def fail_with_def ReturnErrnoAndPrintError_def PrintMsg_def
  fd_to_fh_def fh_to_fd_def resize_def overwrite_def

section \<open>Descriptors\<close>

lemma fold_max_ge: "(a::'a::linorder) \<le> fold max xs a"
  by (induction xs arbitrary: a) (auto intro: order_trans [OF max.cobounded2])

lemma fold_max_mem: "(x::'a::linorder) \<in> set xs \<Longrightarrow> x \<le> fold max xs a"
proof (induction xs arbitrary: a)
  case Nil then show ?case by simp
next
  case (Cons y ys)
  show ?case
  proof (cases "x = y")
    case True
    have "y \<le> max y a" by simp
    also have "\<dots> \<le> fold max ys (max y a)" by (rule fold_max_ge)
    finally show ?thesis using True by simp
  next
    case False
    with Cons show ?thesis by simp
  qed
qed

lemma next_fd_fresh: "next_fd tab \<notin> fst ` set tab"
proof
  assume "next_fd tab \<in> fst ` set tab"
  then have "next_fd tab \<in> set (map fst tab)" by simp
  then have "next_fd tab \<le> fold max (map fst tab) 2" by (rule fold_max_mem)
  then show False by (simp add: next_fd_def)
qed

lemma next_fd_ge: "3 \<le> next_fd tab"
  using fold_max_ge [of 2 "map fst tab"] by (simp add: next_fd_def)

lemma map_of_fresh_append:
  assumes "k \<notin> fst ` set tab"
  shows "map_of (tab @ [(k, v)]) k = Some v"
proof -
  have "map_of tab k = None" using assms by (simp add: map_of_eq_None_iff)
  then show ?thesis by (simp add: map_add_def)
qed

lemma filter_fresh: "k \<notin> fst ` set tab \<Longrightarrow> filter (\<lambda>(d, p). d \<noteq> k) tab = tab"
  by (induction tab) auto

section \<open>Native calls on a regular file\<close>

lemma sys_open_reg:
  "lookup_node w p = Some (Reg c) \<Longrightarrow>
   sys_open p fl w = (next_fd (fdtab w),
      emit (EvOpen p fl (next_fd (fdtab w))) (w\<lparr>fdtab := fdtab w @ [(next_fd (fdtab w), p)]\<rparr>))"
  by (simp add: sys_open_def Let_def)

lemma sys_pwrite_reg:
  "map_of (fdtab w) fd = Some p \<Longrightarrow> lookup_node w p = Some (Reg c) \<Longrightarrow>
   sys_pwrite fd buf off w =
     (int (length (take (wcap w) buf)),
      (emit (EvPwrite fd (take (wcap w) buf) off) w)
        \<lparr>files := store_node p (Reg (overwrite c off (take (wcap w) buf))) (files w)\<rparr>)"
  by (simp add: sys_pwrite_def Let_def)

lemma sys_close_last:
  assumes "fdtab w = tab @ [(k, p)]" and "k \<notin> fst ` set tab"
  shows "sys_close k w = (0, emit (EvClose k) (w\<lparr>fdtab := tab\<rparr>))"
  using assms by (simp add: sys_close_def filter_fresh)

section \<open>open on a dbfs file, step by step\<close>

lemma GetDmvFileContent_run:
  assumes reg: "lookup_node w (CalculateDumpPath e path) = Some (Reg c)"
    and tok: "Split e path (CHR ''/'') = srv # seg1 # segs"
    and q: "dmv_query seg1 = (t, q)"
    and d: "GetServerDetails e srv = (h, u, p)"
    and x: "ExecuteQuery e q h u p t = (err, resp)"
  shows "\<exists>w' rest. GetDmvFileContent e path w = Inr (err, w') \<and> fdtab w' = fdtab w \<and>
           dirtab w' = dirtab w \<and> wcap w' = wcap w \<and>
           trace w' = trace w @ EvOpen (CalculateDumpPath e path) O_WRONLY (next_fd (fdtab w))
                               # EvExecuteQuery q h u p t # rest \<and>
           (err \<noteq> 0 \<longrightarrow> files w' = files w) \<and>
           (err = 0 \<longrightarrow> lookup_node w' (CalculateDumpPath e path)
                          = Some (Reg (overwrite c 0 (take (wcap w) resp))))"
proof -
  define dump where "dump = CalculateDumpPath e path"
  define fd where "fd = next_fd (fdtab w)"
  define w2 where "w2 = emit (EvExecuteQuery q h u p t)
                          (emit (EvOpen dump O_WRONLY fd) (w\<lparr>fdtab := fdtab w @ [(fd, dump)]\<rparr>))"
  have ne: "fd \<noteq> -1" using next_fd_ge [of "fdtab w"] by (simp add: fd_def)
  have fr: "fd \<notin> fst ` set (fdtab w)" unfolding fd_def by (rule next_fd_fresh)
  have op: "sys_open dump O_WRONLY w = (fd, emit (EvOpen dump O_WRONLY fd) (w\<lparr>fdtab := fdtab w @ [(fd, dump)]\<rparr>))"
    using sys_open_reg [OF reg] by (simp add: dump_def fd_def)
  have tab2: "fdtab w2 = fdtab w @ [(fd, dump)]" by (simp add: w2_def emit_def)
  have reg2: "lookup_node w2 dump = Some (Reg c)"
    using reg by (simp add: w2_def emit_def lookup_node_def dump_def)
  have m2: "map_of (fdtab w2) fd = Some dump"
    unfolding tab2 by (rule map_of_fresh_append [OF fr])
  show ?thesis
  proof (cases "err = 0")
    case True
    define part where "part = take (wcap w2) resp"
    define w3 where "w3 = (emit (EvPwrite fd part 0) w2)\<lparr>files := store_node dump (Reg (overwrite c 0 part)) (files w2)\<rparr>"
    have pw: "sys_pwrite fd resp 0 w2 = (int (length part), w3)"
      using sys_pwrite_reg [OF m2 reg2] by (simp add: part_def w3_def)
    have tab3: "fdtab w3 = fdtab w @ [(fd, dump)]" by (simp add: w3_def emit_def tab2)
    have cl: "sys_close fd w3 = (0, emit (EvClose fd) (w3\<lparr>fdtab := fdtab w\<rparr>))"
      by (rule sys_close_last [OF tab3 fr])
    have "GetDmvFileContent e path w = Inr (err, emit (EvClose fd) (w3\<lparr>fdtab := fdtab w\<rparr>))"
      using True ne
      by (simp add: GetDmvFileContent_def op [unfolded dump_def] tok q d x Let_def
            w2_def [symmetric, unfolded dump_def] pw cl)
    moreover have "lookup_node (emit (EvClose fd) (w3\<lparr>fdtab := fdtab w\<rparr>)) dump
                     = Some (Reg (overwrite c 0 (take (wcap w) resp)))"
      by (simp add: emit_def lookup_node_def w3_def part_def w2_def map_of_store_node)
    moreover have "trace (emit (EvClose fd) (w3\<lparr>fdtab := fdtab w\<rparr>)) =
                     trace w @ EvOpen dump O_WRONLY fd # EvExecuteQuery q h u p t # [EvPwrite fd part 0, EvClose fd]"
      by (simp add: emit_def w3_def w2_def)
    ultimately show ?thesis using True
      by (auto simp add: dump_def fd_def emit_def w3_def w2_def)
  next
    case False
    define w3 where "w3 = PrintMsg ''Querying the SQL failed.'' w2"
    have tab3: "fdtab w3 = fdtab w @ [(fd, dump)]" by (simp add: w3_def PrintMsg_def emit_def tab2)
    have cl: "sys_close fd w3 = (0, emit (EvClose fd) (w3\<lparr>fdtab := fdtab w\<rparr>))"
      by (rule sys_close_last [OF tab3 fr])
    have "GetDmvFileContent e path w = Inr (err, emit (EvClose fd) (w3\<lparr>fdtab := fdtab w\<rparr>))"
      using False ne
      by (simp add: GetDmvFileContent_def op [unfolded dump_def] tok q d x Let_def
            w2_def [symmetric, unfolded dump_def] w3_def [symmetric] cl)
    moreover have "trace (emit (EvClose fd) (w3\<lparr>fdtab := fdtab w\<rparr>)) =
                     trace w @ EvOpen dump O_WRONLY fd # EvExecuteQuery q h u p t
                       # [EvPrint ''Querying the SQL failed.'', EvClose fd]"
      by (simp add: emit_def w3_def w2_def PrintMsg_def)
    ultimately show ?thesis using False
      by (auto simp add: dump_def fd_def emit_def w3_def w2_def PrintMsg_def)
  qed
qed


lemma OpenLocalImpl_dmv:
  assumes dbfs: "IsDbfsFile e path"
    and nocq: "\<not> strstr path (CUSTOM_QUERY_FOLDER_NAME e)"
    and reg: "lookup_node w (CalculateDumpPath e path) = Some (Reg c)"
    and tok: "Split e path (CHR ''/'') = srv # seg1 # segs"
    and q: "dmv_query seg1 = (t, q)"
    and d: "GetServerDetails e srv = (h, u, p)"
    and x: "ExecuteQuery e q h u p t = (err, resp)"
  shows "\<exists>fi' w' fd2 rest. OpenLocalImpl e path fi w = Inr (err, fi', w') \<and>
           trace w' = trace w @ EvOpen (CalculateDumpPath e path) (flags fi) (next_fd (fdtab w))
                               # EvOpen (CalculateDumpPath e path) O_WRONLY fd2
                               # EvExecuteQuery q h u p t # rest \<and>
           (err \<noteq> 0 \<longrightarrow> fdtab w' = fdtab w \<and> files w' = files w \<and> fh fi' = fd_to_fh (-1) \<and>
                        last rest = EvClose (next_fd (fdtab w))) \<and>
           (err = 0 \<longrightarrow> fdtab w' = fdtab w @ [(next_fd (fdtab w), CalculateDumpPath e path)] \<and>
                        fh fi' = fd_to_fh (next_fd (fdtab w)) \<and>
                        lookup_node w' (CalculateDumpPath e path)
                          = Some (Reg (overwrite c 0 (take (wcap w) resp))))"
proof -
  define dump where "dump = CalculateDumpPath e path"
  define fd where "fd = next_fd (fdtab w)"
  define w1 where "w1 = emit (EvOpen dump (flags fi) fd) (w\<lparr>fdtab := fdtab w @ [(fd, dump)]\<rparr>)"
  have ne: "fd \<noteq> -1" using next_fd_ge [of "fdtab w"] by (simp add: fd_def)
  have fr: "fd \<notin> fst ` set (fdtab w)" unfolding fd_def by (rule next_fd_fresh)
  have op: "sys_open dump (flags fi) w = (fd, w1)"
    using sys_open_reg [OF reg] by (simp add: dump_def fd_def w1_def)
  have reg1: "lookup_node w1 (CalculateDumpPath e path) = Some (Reg c)"
    using reg by (simp add: w1_def emit_def lookup_node_def)
  from GetDmvFileContent_run [OF reg1 tok q d x] obtain w3 rest0 where
    run: "GetDmvFileContent e path w1 = Inr (err, w3)"
    and tab3: "fdtab w3 = fdtab w1"
    and tr3: "trace w3 = trace w1 @ EvOpen dump O_WRONLY (next_fd (fdtab w1))
                           # EvExecuteQuery q h u p t # rest0"
    and f3: "err \<noteq> 0 \<longrightarrow> files w3 = files w1"
    and c3: "err = 0 \<longrightarrow> lookup_node w3 dump = Some (Reg (overwrite c 0 (take (wcap w1) resp)))"
    unfolding dump_def by blast
  have fetch: "OpenLocalImpl_fetch e path dump w1 = Inr (err, w3)"
    using dbfs nocq run by (simp add: OpenLocalImpl_fetch_def)
  have tab1: "fdtab w1 = fdtab w @ [(fd, dump)]" by (simp add: w1_def emit_def)
  have tr1: "trace w1 = trace w @ [EvOpen dump (flags fi) fd]" by (simp add: w1_def emit_def)
  show ?thesis
  proof (cases "err = 0")
    case True
    have "OpenLocalImpl e path fi w = Inr (err, fi\<lparr>fh := fd_to_fh fd\<rparr>, w3)"
      using True ne
      by (simp add: OpenLocalImpl_def dump_def [symmetric] op fetch Let_def)
    then show ?thesis
      using True tab3 tab1 tr3 tr1 c3
      by (auto simp add: dump_def fd_def w1_def emit_def)
  next
    case False
    have cl: "sys_close fd w3 = (0, emit (EvClose fd) (w3\<lparr>fdtab := fdtab w\<rparr>))"
      by (rule sys_close_last [OF _ fr]) (simp add: tab3 tab1)
    have "OpenLocalImpl e path fi w =
            Inr (err, fi\<lparr>fh := fd_to_fh (-1)\<rparr>, emit (EvClose fd) (w3\<lparr>fdtab := fdtab w\<rparr>))"
      using False ne
      by (simp add: OpenLocalImpl_def dump_def [symmetric] op fetch Let_def cl)
    moreover have "trace (emit (EvClose fd) (w3\<lparr>fdtab := fdtab w\<rparr>)) =
        trace w @ EvOpen dump (flags fi) fd # EvOpen dump O_WRONLY (next_fd (fdtab w1))
                # EvExecuteQuery q h u p t # (rest0 @ [EvClose fd])"
      by (simp add: emit_def tr3 tr1)
    moreover have "files (emit (EvClose fd) (w3\<lparr>fdtab := fdtab w\<rparr>)) = files w"
      using False f3 by (simp add: emit_def w1_def)
    ultimately show ?thesis
      using False
      by (auto simp add: dump_def fd_def emit_def)
  qed
qed


lemma OpenLocalImpl_custom:
  assumes dbfs: "IsDbfsFile e path"
    and cq: "strstr path (CUSTOM_QUERY_FOLDER_NAME e)"
    and reg: "lookup_node w (CalculateDumpPath e path) = Some (Reg c)"
    and tok: "Split e path (CHR ''/'') = srv # CUSTOM_QUERY_FOLDER_NAME e # name # segs"
    and si: "GetServerInfo e srv = Some si"
    and dir: "m_customQueriesPath si \<noteq> []"
  shows "OpenLocalImpl e path fi w =
           Inr (0, fi\<lparr>fh := fd_to_fh (next_fd (fdtab w))\<rparr>,
                snd (ExecuteCustomQuery e (m_customQueriesPath si @ ''/'' @ name)
                       (CalculateDumpPath e path) (m_hostname si) (m_username si) (m_password si)
                       (emit (EvExecuteCustomQuery (m_customQueriesPath si @ ''/'' @ name)
                                (CalculateDumpPath e path))
                          (emit (EvOpen (CalculateDumpPath e path) (flags fi) (next_fd (fdtab w)))
                             (w\<lparr>fdtab := fdtab w @ [(next_fd (fdtab w), CalculateDumpPath e path)]\<rparr>)))))"
proof -
  have ne: "next_fd (fdtab w) \<noteq> -1" using next_fd_ge [of "fdtab w"] by simp
  show ?thesis
    using ne dbfs cq dir
    by (simp add: OpenLocalImpl_def sys_open_reg [OF reg] OpenLocalImpl_fetch_def tok si Let_def
          split: prod.splits)
qed

section \<open>write on a dbfs file\<close>

text \<open>
  C2. A write to a path that \<open>IsDbfsFile\<close> accepts (the driver's test for a metadata
  or custom-query file) returns \<open>-EPERM\<close> for every buffer, size, offset and handle; the
  backing store and the descriptor table are as before, and the only thing the call
  does is print the refusal, so no \<open>pwrite\<close> is issued.
\<close>

theorem write_dbfs_rejected:
  assumes "IsDbfsFile e path"
  shows "\<exists>w'. WriteLocalImpl e path buf cnt off fi w = Inr (- EPERM, w')
            \<and> files w' = files w \<and> fdtab w' = fdtab w
            \<and> trace w' = trace w @ [EvPrint ''Cannot write to the dbfs files.'']"
  using assms by (simp add: WriteLocalImpl_def PrintMsg_def emit_def)

theorem write_dbfs_rejected_witness:
  "IsDbfsFile env0 ''/srv/dm_os_info'' \<and>
   (\<exists>w'. WriteLocalImpl env0 ''/srv/dm_os_info'' ''xy'' 2 7 (Some fi0) world0 = Inr (- EPERM, w')
          \<and> files w' = files world0 \<and> fdtab w' = fdtab world0
          \<and> trace w' = trace world0 @ [EvPrint ''Cannot write to the dbfs files.''])"
proof -
  have h: "IsDbfsFile env0 ''/srv/dm_os_info''"
    by (simp add: mount0_defs)
  show ?thesis
    using h write_dbfs_rejected [OF h, of "''xy''" 2 7 "Some fi0" world0] by simp
qed

section \<open>release\<close>

lemma close_step:
  "\<exists>r w' rest.
     (let (result1, w2) = sys_close fd w1
      in if result1 = -1 then ReturnErrnoAndPrintError a b w2 else (result1, w2)) = (r, w') \<and>
     trace w' = trace w1 @ EvClose fd # rest \<and> (\<forall>ev \<in> set rest. \<exists>m. ev = EvPrint m) \<and>
     fd \<notin> fst ` set (fdtab w') \<and> files w' = files w1"
  by (cases "fd \<in> fst ` set (fdtab w1)")
     (auto simp: sys_close_def fail_with_def emit_def ReturnErrnoAndPrintError_def)

lemma TruncateLocalImpl_shape:
  "\<exists>pr. trace (snd (TruncateLocalImpl e path n w))
          = trace w @ EvTruncate (CalculateDumpPath e path) n # pr \<and>
        (\<forall>ev \<in> set pr. \<exists>m. ev = EvPrint m) \<and>
        (\<forall>c. lookup_node w (CalculateDumpPath e path) = Some (Reg c) \<longrightarrow>
           pr = [] \<and>
           lookup_node (snd (TruncateLocalImpl e path n w)) (CalculateDumpPath e path)
             = Some (Reg (resize n c)))"
  by (auto simp: TruncateLocalImpl_def sys_truncate_def fail_with_def emit_def
        ReturnErrnoAndPrintError_def lookup_node_def map_of_store_node Let_def
        split: option.splits node.splits)

lemma truncate_phase:
  "\<exists>r1 w1 pr.
     (let (r, wa) = TruncateLocalImpl e path n w
      in if r = -1 then ReturnErrnoAndPrintError a b wa else (r, wa)) = (r1, w1) \<and>
     trace w1 = trace (snd (TruncateLocalImpl e path n w)) @ pr \<and>
     (\<forall>ev \<in> set pr. \<exists>m. ev = EvPrint m) \<and>
     (fst (TruncateLocalImpl e path n w) \<noteq> -1 \<longrightarrow> pr = []) \<and>
     files w1 = files (snd (TruncateLocalImpl e path n w)) \<and>
     fdtab w1 = fdtab (snd (TruncateLocalImpl e path n w))"
  by (cases "TruncateLocalImpl e path n w")
     (auto simp: ReturnErrnoAndPrintError_def emit_def)

lemma TruncateLocalImpl_reg_ok:
  "lookup_node w (CalculateDumpPath e path) = Some (Reg c) \<Longrightarrow>
   fst (TruncateLocalImpl e path n w) = 0"
  by (simp add: TruncateLocalImpl_def sys_truncate_def Let_def)


lemma fh_to_fd_3: "fh_to_fd 3 = 3"
  by (simp add: fh_to_fd_def)



text \<open>
  C10. The value release returns is the value of its final \<open>close\<close>: 0 when the held
  descriptor is open and \<open>-EBADF\<close> otherwise, whatever the truncation did. It is the
  value the same release returns when the path is not a dbfs file and nothing is
  truncated. The result of TruncateLocalImpl is \<open>-errno\<close>; it is compared with \<open>-1\<close>
  and then overwritten by \<open>result = close(fi->fh)\<close>.
\<close>

theorem release_returns_close_result:
  "fst (ReleaseLocalImpl e path fi w) =
     (if fh_to_fd (fh fi) \<in> fst ` set (fdtab w) then 0 else - EBADF) \<and>
   fst (ReleaseLocalImpl e path fi w) = fst (ReleaseLocalImpl (e\<lparr>IsDbfsFile := \<lambda>p. False\<rparr>) path fi w)"
  using TruncateLocalImpl_fdtab [of e path 0 w]
  by (auto simp add: ReleaseLocalImpl_def sys_close_def fail_with_def emit_def
        ReturnErrnoAndPrintError_def Let_def split: prod.splits if_splits)

text \<open>In the witness the backing file is gone: TruncateLocalImpl returns \<open>-ENOENT\<close> and
  release returns 0.\<close>

theorem release_returns_close_result_witness:
  "IsDbfsFile env0 ''/srv/gone'' \<and>
   fst (TruncateLocalImpl env0 ''/srv/gone'' 0 worldB) = - ENOENT \<and>
   fst (ReleaseLocalImpl env0 ''/srv/gone'' fiA worldB) = 0"
proof -
  have a: "IsDbfsFile env0 ''/srv/gone''" by (simp add: mount0_defs)
  have b: "fst (TruncateLocalImpl env0 ''/srv/gone'' 0 worldB) = - ENOENT"
    by (simp add: TruncateLocalImpl_def worldB_def mount0_defs native_defs Let_def)
  have c: "fh_to_fd (fh fiA) \<in> fst ` set (fdtab worldB)"
    by (simp add: fiA_def fh_to_fd_3 worldB_def)
  show ?thesis using a b c release_returns_close_result [of env0 "''/srv/gone''" fiA worldB] by simp
qed

section \<open>The reconciliation, step by step\<close>

lemma child_name_Some: "child_name d p = Some nm \<longleftrightarrow> p = dir_path d nm \<and> valid_name nm"
proof
  assume a: "child_name d p = Some nm"
  then have t: "take (length (d @ ''/'')) p = d @ ''/''" and n: "nm = drop (length (d @ ''/'')) p"
    and v: "nm \<noteq> []" "CHR ''/'' \<notin> set nm" "nm \<noteq> ''.''" "nm \<noteq> ''..''"
    by (auto simp: child_name_def Let_def split: if_splits)
  have "p = take (length (d @ ''/'')) p @ drop (length (d @ ''/'')) p" by simp
  then have "p = (d @ ''/'') @ nm" using t n by metis
  then show "p = dir_path d nm \<and> valid_name nm" using v by (simp add: dir_path_def valid_name_def)
next
  assume "p = dir_path d nm \<and> valid_name nm"
  then show "child_name d p = Some nm"
    by (simp add: child_name_def dir_path_def valid_name_def Let_def)
qed

lemma list_dir_mem:
  "(nm, n) \<in> set (list_dir fs d) \<longleftrightarrow> (dir_path d nm, n) \<in> set fs \<and> valid_name nm"
proof -
  have "(nm, n) \<in> set (list_dir fs d) \<longleftrightarrow> (\<exists>p. (p, n) \<in> set fs \<and> child_name d p = Some nm)"
    by (induction fs) (auto simp: list_dir_def split: option.splits)
  then show ?thesis by (auto simp: child_name_Some)
qed

lemma dir_path_inj: "dir_path d a = dir_path d b \<longleftrightarrow> a = b"
  by (simp add: dir_path_def)

lemma sys_unlink_files: "files (snd (sys_unlink p w)) = unlink_fs p (files w)"
  by (simp add: sys_unlink_def unlink_fs_def lookup_node_def fail_with_def emit_def
        split: option.splits node.splits)

lemma sys_creat_files: "files (snd (sys_creat p w)) = creat_fs p (files w)"
  by (simp add: sys_creat_def creat_fs_def lookup_node_def fail_with_def emit_def
        split: option.splits node.splits)

lemma sys_creat_dirtab: "dirtab (snd (sys_creat p w)) = dirtab w"
  by (simp add: sys_creat_def fail_with_def emit_def split: option.splits node.splits)

lemma filter_absent: "map_of fs p = None \<Longrightarrow> filter (\<lambda>(q, n). q \<noteq> p) fs = fs"
  by (induction fs) (auto split: if_splits)

lemma map_of_filter_key:
  "map_of (filter (\<lambda>(q, n). q \<noteq> p) fs) k = (if k = p then None else map_of fs k)"
  by (induction fs) auto

lemma unlink_fs_reg:
  "map_of fs p = None \<or> (\<exists>c. map_of fs p = Some (Reg c)) \<Longrightarrow>
   unlink_fs p fs = filter (\<lambda>(q, n). q \<noteq> p) fs"
  by (auto simp: unlink_fs_def filter_absent)

lemma map_of_filter_keys:
  "map_of (filter (\<lambda>(q, n). q \<notin> S) fs) k = (if k \<in> S then None else map_of fs k)"
  by (induction fs) auto

lemma regpaths_Cons_reg: "regpaths d ((nm, Reg c) # ents) = insert (dir_path d nm) (regpaths d ents)"
  by (auto simp: regpaths_def)

lemma regpaths_Cons_other: "(\<And>c. n \<noteq> Reg c) \<Longrightarrow> regpaths d ((nm, n) # ents) = regpaths d ents"
  by (auto simp: regpaths_def)

lemma fold_ustep:
  assumes "distinct (map fst fs0)" and "set ents \<subseteq> set (list_dir fs0 d)"
  shows "fold (ustep d) ents (filter (\<lambda>(q, n). q \<notin> S) fs0)
           = filter (\<lambda>(q, n). q \<notin> S \<union> regpaths d ents) fs0"
  using assms(2)
proof (induction ents arbitrary: S)
  case Nil
  then show ?case by (simp add: regpaths_def)
next
  case (Cons ent ents)
  obtain nm n where ent: "ent = (nm, n)" by (cases ent)
  from Cons.prems have sub: "set ents \<subseteq> set (list_dir fs0 d)" by simp
  show ?case
  proof (cases n)
    case (Reg c)
    from Cons.prems ent Reg have "(dir_path d nm, Reg c) \<in> set fs0"
      by (simp add: list_dir_mem)
    with assms(1) have m: "map_of fs0 (dir_path d nm) = Some (Reg c)" by simp
    have "unlink_fs (dir_path d nm) (filter (\<lambda>(q, n). q \<notin> S) fs0)
            = filter (\<lambda>(q, n). q \<noteq> dir_path d nm) (filter (\<lambda>(q, n). q \<notin> S) fs0)"
      by (rule unlink_fs_reg) (simp add: map_of_filter_keys m)
    also have "\<dots> = filter (\<lambda>(q, n). q \<notin> insert (dir_path d nm) S) fs0"
      by (induction fs0) auto
    finally have "fold (ustep d) (ent # ents) (filter (\<lambda>(q, n). q \<notin> S) fs0)
                    = fold (ustep d) ents (filter (\<lambda>(q, n). q \<notin> insert (dir_path d nm) S) fs0)"
      by (simp add: ent Reg ustep_def)
    also have "\<dots> = filter (\<lambda>(q, n). q \<notin> insert (dir_path d nm) S \<union> regpaths d ents) fs0"
      by (rule Cons.IH [OF sub])
    finally show ?thesis by (simp add: ent Reg regpaths_Cons_reg)
  next
    case Dir
    then have "regpaths d (ent # ents) = regpaths d ents"
      by (simp add: ent regpaths_Cons_other)
    then show ?thesis using Cons.IH [OF sub, of S] by (simp add: ent Dir ustep_def)
  next
    case Special
    then have "regpaths d (ent # ents) = regpaths d ents"
      by (simp add: ent regpaths_Cons_other)
    then show ?thesis using Cons.IH [OF sub, of S] by (simp add: ent Special ustep_def)
  qed
qed

lemma fold_ustep_all:
  assumes "distinct (map fst fs)"
  shows "fold (ustep d) (list_dir fs d) fs = filter (\<lambda>(q, n). q \<notin> regpaths d (list_dir fs d)) fs"
  using fold_ustep [OF assms, of "list_dir fs d" d "{}"] by simp

lemma map_fst_store_node:
  "p \<in> fst ` set fs \<Longrightarrow> map fst (store_node p n fs) = map fst fs"
  by (induction fs) (auto simp: store_node_def)

lemma reg_or_absent_creat_fs: "reg_or_absent (creat_fs p fs) q = reg_or_absent fs q"
proof (cases "map_of fs p")
  case None
  then show ?thesis
    by (auto simp: creat_fs_def reg_or_absent_def map_add_def split: option.splits node.splits)
next
  case (Some n)
  then show ?thesis
    by (cases n; cases "q = p")
       (simp_all add: creat_fs_def reg_or_absent_def map_of_store_node map_of_store_node_other)
qed

lemma creat_fs_props:
  assumes "distinct (map fst fs)"
  shows "distinct (map fst (creat_fs p fs))"
    and "map_of (creat_fs p fs) q
           = (if q = p \<and> reg_or_absent fs p then Some (Reg []) else map_of fs q)"
proof -
  show "distinct (map fst (creat_fs p fs))"
  proof (cases "map_of fs p")
    case None
    then have "p \<notin> fst ` set fs" by (simp add: map_of_eq_None_iff)
    with assms None show ?thesis by (simp add: creat_fs_def)
  next
    case (Some n)
    then have "p \<in> fst ` set fs" by (metis map_of_eq_None_iff option.distinct(1))
    with assms Some show ?thesis
      by (cases n) (simp_all add: creat_fs_def map_fst_store_node)
  qed
  show "map_of (creat_fs p fs) q
          = (if q = p \<and> reg_or_absent fs p then Some (Reg []) else map_of fs q)"
  proof (cases "map_of fs p")
    case None
    then show ?thesis
      by (auto simp add: creat_fs_def reg_or_absent_def map_add_def split: option.splits)
  next
    case (Some n)
    then show ?thesis
      by (cases n)
         (auto simp add: creat_fs_def reg_or_absent_def map_of_store_node map_of_store_node_other)
  qed
qed

lemma fold_cstep:
  assumes "distinct (map fst fs)"
  shows "distinct (map fst (fold (cstep d) names fs)) \<and>
         (\<forall>q. map_of (fold (cstep d) names fs) q
                = (if q \<in> dir_path d ` set names \<and> reg_or_absent fs q then Some (Reg [])
                   else map_of fs q))"
  using assms
proof (induction names arbitrary: fs)
  case Nil
  then show ?case by simp
next
  case (Cons nm names)
  let ?fs1 = "creat_fs (dir_path d nm) fs"
  note cp = creat_fs_props [OF Cons.prems]
  from Cons.IH [OF cp(1)] show ?case
    by (auto simp: cstep_def cp(2) reg_or_absent_creat_fs)
qed

lemma sys_readdir_more:
  "h \<noteq> 0 \<Longrightarrow> map_of (dirtab w) h = Some s \<Longrightarrow> d_pos s < length (stream_buf s w) \<Longrightarrow>
   sys_readdir h w = Inr (Some (stream_buf s w ! d_pos s),
                      set_stream h (s\<lparr>d_buf := Some (stream_buf s w), d_pos := Suc (d_pos s)\<rparr>) w)"
  by (simp add: sys_readdir_def stream_buf_def Let_def)

lemma sys_readdir_end:
  "h \<noteq> 0 \<Longrightarrow> map_of (dirtab w) h = Some s \<Longrightarrow> \<not> d_pos s < length (stream_buf s w) \<Longrightarrow>
   sys_readdir h w = Inr (None, set_stream h (s\<lparr>d_buf := Some (stream_buf s w)\<rparr>) w)"
  by (simp add: sys_readdir_def stream_buf_def Let_def)

lemma set_stream_fields:
  "files (set_stream h s w) = files w" "fdtab (set_stream h s w) = fdtab w"
  "trace (set_stream h s w) = trace w"
  by (simp_all add: set_stream_def)

lemma RemoveCustomQueriesOutputFiles_run:
  assumes "h \<noteq> 0" and "map_of (dirtab w) h = Some s"
  shows "\<exists>w2. RemoveCustomQueriesOutputFiles h d w = Inr w2 \<and>
           files w2 = fold (ustep d) (drop (d_pos s) (stream_buf s w)) (files w) \<and>
           (\<exists>s'. map_of (dirtab w2) h = Some s' \<and> d_path s' = d_path s)"
  using assms(2)
proof (induction "length (stream_buf s w) - d_pos s" arbitrary: w s)
  case 0
  then have e: "\<not> d_pos s < length (stream_buf s w)" by simp
  have "RemoveCustomQueriesOutputFiles h d w
          = Inr (set_stream h (s\<lparr>d_buf := Some (stream_buf s w)\<rparr>) w)"
    by (subst RemoveCustomQueriesOutputFiles.simps)
       (simp add: sys_readdir_end [OF assms(1) "0.prems" e])
  moreover have "map_of (dirtab (set_stream h (s\<lparr>d_buf := Some (stream_buf s w)\<rparr>) w)) h
                   = Some (s\<lparr>d_buf := Some (stream_buf s w)\<rparr>)"
    by (rule map_of_set_stream [OF "0.prems"])
  ultimately show ?case using e by (simp add: set_stream_fields)
next
  case (Suc n)
  let ?b = "stream_buf s w"
  let ?s1 = "s\<lparr>d_buf := Some ?b, d_pos := Suc (d_pos s)\<rparr>"
  let ?w1 = "set_stream h ?s1 w"
  from Suc.hyps(2) have lt: "d_pos s < length ?b" by simp
  obtain nm n' where ent: "?b ! d_pos s = (nm, n')" by (cases "?b ! d_pos s")
  define w2 where "w2 = (case n' of Reg c \<Rightarrow> snd (sys_unlink (d @ ''/'' @ nm) ?w1) | _ \<Rightarrow> ?w1)"
  have unf: "RemoveCustomQueriesOutputFiles h d w = RemoveCustomQueriesOutputFiles h d w2"
    by (subst RemoveCustomQueriesOutputFiles.simps)
       (simp add: sys_readdir_more [OF assms(1) Suc.prems lt] ent w2_def)
  have tab2: "dirtab w2 = dirtab ?w1"
    by (simp add: w2_def sys_unlink_dirtab split: node.splits)
  have m2: "map_of (dirtab w2) h = Some ?s1"
    unfolding tab2 by (rule map_of_set_stream [OF Suc.prems])
  have f2: "files w2 = ustep d (?b ! d_pos s) (files w)"
    by (simp add: w2_def ent ustep_def sys_unlink_files set_stream_fields dir_path_def
          split: node.splits)
  have b2: "stream_buf ?s1 w2 = ?b" by (simp add: stream_buf_def)
  have n2: "n = length (stream_buf ?s1 w2) - d_pos ?s1" using Suc.hyps(2) by (simp add: b2)
  from Suc.hyps(1) [OF n2 m2]
  have "\<exists>w3. RemoveCustomQueriesOutputFiles h d w2 = Inr w3 \<and>
          files w3 = fold (ustep d) (drop (Suc (d_pos s)) ?b) (ustep d (?b ! d_pos s) (files w)) \<and>
          (\<exists>s'. map_of (dirtab w3) h = Some s' \<and> d_path s' = d_path s)"
    by (simp add: b2 f2)
  moreover have "drop (d_pos s) ?b = ?b ! d_pos s # drop (Suc (d_pos s)) ?b"
    using lt by (simp add: Cons_nth_drop_Suc)
  ultimately show ?case by (simp add: unf)
qed

lemma readdir_loop_all:
  assumes "h \<noteq> 0" and "map_of (dirtab w) h = Some s"
  shows "\<exists>w2. readdir_loop (\<lambda>b de. False) h acc w
                = Inr (acc @ drop (d_pos s) (stream_buf s w), w2)"
  using assms(2)
proof (induction "length (stream_buf s w) - d_pos s" arbitrary: w s acc)
  case 0
  then have e: "\<not> d_pos s < length (stream_buf s w)" by simp
  show ?case using e
    by (subst readdir_loop.simps) (simp add: sys_readdir_end [OF assms(1) "0.prems" e])
next
  case (Suc n)
  let ?b = "stream_buf s w"
  let ?s1 = "s\<lparr>d_buf := Some ?b, d_pos := Suc (d_pos s)\<rparr>"
  let ?w1 = "set_stream h ?s1 w"
  from Suc.hyps(2) have lt: "d_pos s < length ?b" by simp
  have unf: "readdir_loop (\<lambda>b de. False) h acc w
               = readdir_loop (\<lambda>b de. False) h (acc @ [?b ! d_pos s]) ?w1"
    by (subst readdir_loop.simps) (simp add: sys_readdir_more [OF assms(1) Suc.prems lt])
  have m1: "map_of (dirtab ?w1) h = Some ?s1" by (rule map_of_set_stream [OF Suc.prems])
  have b1: "stream_buf ?s1 ?w1 = ?b" by (simp add: stream_buf_def)
  have n1: "n = length (stream_buf ?s1 ?w1) - d_pos ?s1" using Suc.hyps(2) by (simp add: b1)
  have "\<exists>w2. readdir_loop (\<lambda>b de. False) h (acc @ [?b ! d_pos s]) ?w1
          = Inr ((acc @ [?b ! d_pos s]) @ drop (Suc (d_pos s)) ?b, w2)"
    using Suc.hyps(1) [OF n1 m1, of "acc @ [?b ! d_pos s]"] by (simp add: b1)
  moreover have "drop (d_pos s) ?b = ?b ! d_pos s # drop (Suc (d_pos s)) ?b"
    using lt by (simp add: Cons_nth_drop_Suc)
  ultimately show ?case by (simp add: unf)
qed

lemma fold_ustep_read_dir:
  assumes "distinct (map fst fs)"
  shows "fold (ustep d) (read_dir fs d) fs = drop_regular d fs"
  using fold_ustep_all [OF assms, of d] by (simp add: read_dir_def ustep_def drop_regular_def)

lemma fold_creat_run:
  "files (fold (\<lambda>nm v. snd (sys_creat (d @ ''/'' @ nm) v)) names w) = fold (cstep d) names (files w) \<and>
   dirtab (fold (\<lambda>nm v. snd (sys_creat (d @ ''/'' @ nm) v)) names w) = dirtab w"
  by (induction names arbitrary: w)
     (simp_all add: sys_creat_files sys_creat_dirtab cstep_def dir_path_def)

lemma word_succ_fresh: "1 + (m::64 word) \<noteq> 0 \<Longrightarrow> m < 1 + m"
  by (metis add.commute add.right_inverse inc_less_eq_self_iff_eq verit_comp_simplify1(3))

lemma sys_opendir_ok:
  assumes "sys_opendir p w = (h, w1)" and "h \<noteq> 0"
  shows "lookup_node w p = Some Dir"
    and "h \<notin> fst ` set (dirtab w)"
    and "w1 = emit (EvOpendir p) (w\<lparr>dirtab := dirtab w @ [(h, \<lparr>d_path = p, d_buf = None, d_pos = 0\<rparr>)]\<rparr>)"
proof -
  from assms show dir: "lookup_node w p = Some Dir"
    by (auto simp: sys_opendir_def Let_def split: option.splits node.splits if_splits)
  from assms dir have h: "h = 1 + fold max (map fst (dirtab w)) 0"
    by (auto simp: sys_opendir_def Let_def split: if_splits)
  from assms dir show "w1 = emit (EvOpendir p) (w\<lparr>dirtab := dirtab w @ [(h, \<lparr>d_path = p, d_buf = None, d_pos = 0\<rparr>)]\<rparr>)"
    by (auto simp: sys_opendir_def Let_def split: if_splits)
  show "h \<notin> fst ` set (dirtab w)"
  proof
    assume "h \<in> fst ` set (dirtab w)"
    then have "h \<in> set (map fst (dirtab w))" by simp
    then have "h \<le> fold max (map fst (dirtab w)) 0" by (rule fold_max_mem)
    moreover have "fold max (map fst (dirtab w)) 0 < h"
      using assms(2) unfolding h by (rule word_succ_fresh)
    ultimately show False by simp
  qed
qed

lemma sys_opendir_null: "sys_opendir p w = (0, w1) \<Longrightarrow> errno w1 \<noteq> 0"
  by (auto simp: sys_opendir_def Let_def ENOTDIR_def ENOENT_def emit_def
        split: option.splits node.splits if_splits)

lemma sys_rewinddir_run:
  assumes "map_of (dirtab w) h = Some s"
  shows "files (sys_rewinddir h w) = files w"
    and "map_of (dirtab (sys_rewinddir h w)) h = Some (s\<lparr>d_buf := None, d_pos := 0\<rparr>)"
  using assms map_of_set_stream [OF assms, of "s\<lparr>d_buf := None, d_pos := 0\<rparr>"]
  by (simp_all add: sys_rewinddir_def emit_def set_stream_def)

lemma drop_regular_props:
  assumes dist: "distinct (map fst fs)"
  shows "distinct (map fst (drop_regular d fs))"
    and "valid_name nm \<Longrightarrow> (dir_path d nm, Reg c) \<notin> set (drop_regular d fs)"
    and "reg_or_absent (drop_regular d fs) q = reg_or_absent fs q"
proof -
  show "distinct (map fst (drop_regular d fs))"
    unfolding drop_regular_def using dist by (rule distinct_map_filter)
  show "(dir_path d nm, Reg c) \<notin> set (drop_regular d fs)" if v: "valid_name nm"
  proof
    assume "(dir_path d nm, Reg c) \<in> set (drop_regular d fs)"
    then have a: "(dir_path d nm, Reg c) \<in> set fs" and b: "dir_path d nm \<notin> regpaths d (list_dir fs d)"
      by (auto simp: drop_regular_def)
    from a v have "(nm, Reg c) \<in> set (list_dir fs d)" by (simp add: list_dir_mem)
    then have "dir_path d nm \<in> regpaths d (list_dir fs d)" by (auto simp: regpaths_def)
    with b show False by simp
  qed
  show "reg_or_absent (drop_regular d fs) q = reg_or_absent fs q"
  proof (cases "q \<in> regpaths d (list_dir fs d)")
    case True
    then obtain nm c where "q = dir_path d nm" "(nm, Reg c) \<in> set (list_dir fs d)"
      by (auto simp: regpaths_def)
    then have "(q, Reg c) \<in> set fs" by (simp add: list_dir_mem)
    with dist have "map_of fs q = Some (Reg c)" by simp
    with True show ?thesis
      by (simp add: reg_or_absent_def drop_regular_def map_of_filter_keys)
  next
    case False
    then show ?thesis
      by (simp add: reg_or_absent_def drop_regular_def map_of_filter_keys)
  qed
qed

section \<open>open on a metadata file\<close>

text \<open>For a name without \<open>.json\<close> the query is the tabular one on that name, and for
  such a name followed by \<open>.json\<close> it is the JSON one on the name.\<close>

lemma starts_with_json_append:
  assumes "\<not> starts_with (c # cs) ''.json''"
  shows "\<not> starts_with ((c # cs) @ ''.json'') ''.json''"
proof (cases cs)
  case Nil then show ?thesis using assms by (auto simp: starts_with_def)
next
  case (Cons c1 cs1)
  show ?thesis
  proof (cases cs1)
    case Nil then show ?thesis using assms Cons by (auto simp: starts_with_def)
  next
    case (Cons c2 cs2)
    note C2 = Cons
    show ?thesis
    proof (cases cs2)
      case Nil then show ?thesis using assms \<open>cs = c1 # cs1\<close> C2 by (auto simp: starts_with_def)
    next
      case (Cons c3 cs3)
      note C3 = Cons
      show ?thesis
      proof (cases cs3)
        case Nil then show ?thesis using assms \<open>cs = c1 # cs1\<close> C2 C3 by (auto simp: starts_with_def)
      next
        case (Cons c4 cs4)
        then show ?thesis using assms \<open>cs = c1 # cs1\<close> C2 C3 by (auto simp: starts_with_def)
      qed
    qed
  qed
qed

lemma str_find_json_suffix:
  "str_find base ''.json'' = None \<Longrightarrow> str_find (base @ ''.json'') ''.json'' = Some (length base)"
proof (induction base)
  case Nil
  then show ?case by (simp add: starts_with_def)
next
  case (Cons c cs)
  from Cons.prems have a: "\<not> starts_with (c # cs) ''.json''" and b: "str_find cs ''.json'' = None"
    by (auto split: if_splits)
  from starts_with_json_append [OF a] Cons.IH [OF b] show ?case by simp
qed

lemma dmv_query_tabular:
  "str_find name ''.json'' = None \<Longrightarrow>
   dmv_query name = (TYPE_TSV, ''SELECT * FROM [master].[sys].['' @ name @ '']'')"
  by (simp add: dmv_query_def)

lemma dmv_query_json_suffix:
  "str_find base ''.json'' = None \<Longrightarrow>
   dmv_query (base @ ''.json'') = (TYPE_JSON, ''SELECT * FROM [master].[sys].['' @ base @ json_tail)"
  by (simp add: dmv_query_def str_find_json_suffix)

text \<open>
  C1. GetDmvFileContent looks for \<open>.json\<close> with \<open>filename.find\<close>, anywhere in segment 1,
  and cuts the name at the first occurrence. For \<open>/srv/notes.json.bak\<close>, whose segment 1
  does not end in \<open>.json\<close>, the format is Json and the query names the view \<open>notes\<close>:
  the query sent is \<open>SELECT * FROM [master].[sys].[notes] FOR JSON AUTO, ROOT('info')\<close>,
  where the claim has the tabular query on \<open>notes.json.bak\<close>.
\<close>

theorem dmv_json_inside_name:
  "\<not> ends_with ''notes.json.bak'' ''.json'' \<and>
   dmv_query ''notes.json.bak'' = (TYPE_JSON, ''SELECT * FROM [master].[sys].[notes'' @ json_tail) \<and>
   (\<exists>fi' w' fd2 rest.
      OpenLocalImpl env0 ''/srv/notes.json.bak'' fi0 world0 = Inr (0, fi', w') \<and>
      trace w' = EvOpen ''/dump/srv/notes.json.bak'' 0 3
                 # EvOpen ''/dump/srv/notes.json.bak'' O_WRONLY fd2
                 # EvExecuteQuery (''SELECT * FROM [master].[sys].[notes'' @ json_tail)
                       ''host1'' ''sa'' ''pw'' TYPE_JSON # rest)"
proof -
  have a: "\<not> ends_with ''notes.json.bak'' ''.json''" by (simp add: ends_with_def)
  have q: "dmv_query ''notes.json.bak'' = (TYPE_JSON, ''SELECT * FROM [master].[sys].[notes'' @ json_tail)"
    by (simp add: dmv_query_def starts_with_def)
  have dbfs: "IsDbfsFile env0 ''/srv/notes.json.bak''" by (simp add: mount0_defs)
  have nocq: "\<not> strstr ''/srv/notes.json.bak'' (CUSTOM_QUERY_FOLDER_NAME env0)"
    by (simp add: env0_def starts_with_def)
  have reg: "lookup_node world0 (CalculateDumpPath env0 ''/srv/notes.json.bak'') = Some (Reg [])"
    by (simp add: mount0_defs lookup_node_def)
  have tok: "Split env0 ''/srv/notes.json.bak'' (CHR ''/'') = ''srv'' # ''notes.json.bak'' # []"
    by (simp add: mount0_defs)
  have d: "GetServerDetails env0 ''srv'' = (''host1'', ''sa'', ''pw'')"
    by (simp add: GetServerDetails_def GetServerInfo_def mount0_defs)
  have x: "ExecuteQuery env0 (''SELECT * FROM [master].[sys].[notes'' @ json_tail) ''host1'' ''sa'' ''pw'' TYPE_JSON
             = (0, ''0123456789'')"
    by (simp add: env0_def)
  have n: "next_fd (fdtab world0) = 3" by (simp add: world0_def next_fd_def)
  have p: "CalculateDumpPath env0 ''/srv/notes.json.bak'' = ''/dump/srv/notes.json.bak''"
    by (simp add: env0_def)
  have f: "flags fi0 = 0" "trace world0 = []" by (simp_all add: fi0_def world0_def)
  from OpenLocalImpl_dmv [OF dbfs nocq reg tok q d x, of fi0]
  show ?thesis using a q unfolding n p f by auto
qed

text \<open>
  C5. When the query fails, open returns the query's error with both descriptors
  closed (\<open>OpenLocalImpl_dmv\<close>). The other half of the claim fails: the result of
  \<open>pwrite\<close> is only compared with \<open>-1\<close>, so a short write is taken for success. With a
  \<open>pwrite\<close> that transfers 3 bytes of the 10-byte response, open returns 0 and the
  backing file holds \<open>012\<close>.
\<close>

theorem open_short_write_succeeds:
  "ExecuteQuery env0 (''SELECT * FROM [master].[sys].[dm_os_info'' @ json_tail) ''host1'' ''sa'' ''pw'' TYPE_JSON
     = (0, ''0123456789'') \<and>
   (\<exists>fi' w'. OpenLocalImpl env0 ''/srv/dm_os_info.json'' fi0 (world0\<lparr>wcap := 3\<rparr>) = Inr (0, fi', w') \<and>
      lookup_node w' ''/dump/srv/dm_os_info.json'' = Some (Reg ''012''))"
proof -
  have q: "dmv_query ''dm_os_info.json'' = (TYPE_JSON, ''SELECT * FROM [master].[sys].[dm_os_info'' @ json_tail)"
    by (simp add: dmv_query_def starts_with_def)
  have dbfs: "IsDbfsFile env0 ''/srv/dm_os_info.json''" by (simp add: mount0_defs)
  have nocq: "\<not> strstr ''/srv/dm_os_info.json'' (CUSTOM_QUERY_FOLDER_NAME env0)"
    by (simp add: env0_def starts_with_def)
  have reg: "lookup_node (world0\<lparr>wcap := 3\<rparr>) (CalculateDumpPath env0 ''/srv/dm_os_info.json'') = Some (Reg [])"
    by (simp add: mount0_defs lookup_node_def)
  have tok: "Split env0 ''/srv/dm_os_info.json'' (CHR ''/'') = ''srv'' # ''dm_os_info.json'' # []"
    by (simp add: mount0_defs)
  have d: "GetServerDetails env0 ''srv'' = (''host1'', ''sa'', ''pw'')"
    by (simp add: GetServerDetails_def GetServerInfo_def mount0_defs)
  have x: "ExecuteQuery env0 (''SELECT * FROM [master].[sys].[dm_os_info'' @ json_tail) ''host1'' ''sa'' ''pw'' TYPE_JSON
             = (0, ''0123456789'')"
    by (simp add: env0_def)
  have p: "CalculateDumpPath env0 ''/srv/dm_os_info.json'' = ''/dump/srv/dm_os_info.json''"
    by (simp add: env0_def)
  have o: "overwrite [] 0 (take (wcap (world0\<lparr>wcap := 3\<rparr>)) ''0123456789'') = ''012''"
    by (simp add: overwrite_def resize_def)
  from OpenLocalImpl_dmv [OF dbfs nocq reg tok q d x, of fi0]
  show ?thesis using x unfolding p o by auto
qed

section \<open>open on a custom-query file\<close>

text \<open>
  C6. OpenLocalImpl calls ExecuteCustomQuery as a statement and never assigns \<open>error\<close>
  in that branch. With a collaborator that returns \<open>-1\<close>, open of
  \<open>/srv/customQueries/old.sql\<close> on a server with a source directory returns 0 and
  leaves descriptor 3 open in the handle.
\<close>

theorem open_ignores_custom_query_failure:
  "fst (ExecuteCustomQuery env_cq_fails ''/home/u/queries/old.sql'' ''/dump/srv/customQueries/old.sql''
          ''host1'' ''sa'' ''pw'' w) = -1 \<and>
   m_customQueriesPath srv_info = ''/home/u/queries'' \<and>
   (\<exists>w'. OpenLocalImpl env_cq_fails ''/srv/customQueries/old.sql'' fi0 world0
            = Inr (0, fi0\<lparr>fh := 3\<rparr>, w') \<and>
         fdtab w' = [(3, ''/dump/srv/customQueries/old.sql'')])"
proof -
  have dbfs: "IsDbfsFile env_cq_fails ''/srv/customQueries/old.sql''"
    by (simp add: env_cq_fails_def mount0_defs)
  have cq: "strstr ''/srv/customQueries/old.sql'' (CUSTOM_QUERY_FOLDER_NAME env_cq_fails)"
    by (simp add: env_cq_fails_def env0_def starts_with_def)
  have reg: "lookup_node world0 (CalculateDumpPath env_cq_fails ''/srv/customQueries/old.sql'') = Some (Reg ''old'')"
    by (simp add: env_cq_fails_def mount0_defs lookup_node_def)
  have tok: "Split env_cq_fails ''/srv/customQueries/old.sql'' (CHR ''/'')
               = ''srv'' # CUSTOM_QUERY_FOLDER_NAME env_cq_fails # ''old.sql'' # []"
    by (simp add: env_cq_fails_def mount0_defs)
  have si: "GetServerInfo env_cq_fails ''srv'' = Some srv_info"
    by (simp add: GetServerInfo_def env_cq_fails_def env0_def)
  have dir: "m_customQueriesPath srv_info \<noteq> []" by (simp add: srv_info_def)
  have n: "next_fd [] = 3" by (simp add: next_fd_def)
  have n3: "fd_to_fh 3 = 3" by (simp add: fd_to_fh_def)
  have x: "ExecuteCustomQuery env_cq_fails qf out h u p v = (-1, v)" for qf out h u p v
    by (simp add: env_cq_fails_def env0_def)
  have t: "fdtab world0 = []" by (simp add: world0_def)
  have "OpenLocalImpl env_cq_fails ''/srv/customQueries/old.sql'' fi0 world0 =
          Inr (0, fi0\<lparr>fh := 3\<rparr>,
               emit (EvExecuteCustomQuery (m_customQueriesPath srv_info @ ''/'' @ ''old.sql'')
                       (CalculateDumpPath env_cq_fails ''/srv/customQueries/old.sql''))
                 (emit (EvOpen (CalculateDumpPath env_cq_fails ''/srv/customQueries/old.sql'') (flags fi0) 3)
                    (world0\<lparr>fdtab := [(3, CalculateDumpPath env_cq_fails ''/srv/customQueries/old.sql'')]\<rparr>)))"
    using OpenLocalImpl_custom [OF dbfs cq reg tok si dir, of fi0]
    by (simp add: n n3 x t)
  moreover have "CalculateDumpPath env_cq_fails ''/srv/customQueries/old.sql'' = ''/dump/srv/customQueries/old.sql''"
    by (simp add: env_cq_fails_def env0_def)
  ultimately show ?thesis
    by (simp add: x emit_def srv_info_def)
qed

text \<open>
  C7. Both callbacks choose the custom-query branch by \<open>strstr(path, CUSTOM_QUERY_FOLDER_NAME)\<close>,
  a substring test on the whole path, and only then assert that segment 1 is the folder
  name. The metadata file \<open>/srv/dm_customQueries_stats\<close> is taken into the custom-query
  branch of open, which reads \<open>tokens[2]\<close> of a two-element vector; opendir of the
  server directory \<open>/customQueries2\<close> is taken into the reconciliation and stops at
  \<open>assert(tokens.size() > 1)\<close>.
\<close>

theorem substring_taken_for_custom_query:
  "Split env0 ''/srv/dm_customQueries_stats'' (CHR ''/'') = [''srv'', ''dm_customQueries_stats''] \<and>
   ''dm_customQueries_stats'' \<noteq> CUSTOM_QUERY_FOLDER_NAME env0 \<and>
   IsDbfsFile env0 ''/srv/dm_customQueries_stats'' \<and>
   OpenLocalImpl env0 ''/srv/dm_customQueries_stats'' fi0 worldC = Inl OutOfRange \<and>
   Split env0 ''/customQueries2'' (CHR ''/'') = [''customQueries2''] \<and>
   OpendirLocalImpl env0 ''/customQueries2'' fi0 worldC = Inl AssertFailed"
proof -
  have a: "Split env0 ''/srv/dm_customQueries_stats'' (CHR ''/'') = [''srv'', ''dm_customQueries_stats'']"
    by (simp add: mount0_defs)
  have b: "''dm_customQueries_stats'' \<noteq> CUSTOM_QUERY_FOLDER_NAME env0" by (simp add: env0_def)
  have c: "IsDbfsFile env0 ''/srv/dm_customQueries_stats''" by (simp add: mount0_defs)
  have s: "strstr ''/srv/dm_customQueries_stats'' (CUSTOM_QUERY_FOLDER_NAME env0)"
    by (simp add: env0_def starts_with_def)
  have reg: "lookup_node worldC (CalculateDumpPath env0 ''/srv/dm_customQueries_stats'') = Some (Reg [])"
    by (simp add: worldC_def mount0_defs lookup_node_def)
  have ne: "next_fd (fdtab worldC) \<noteq> -1" using next_fd_ge [of "fdtab worldC"] by simp
  have d: "OpenLocalImpl env0 ''/srv/dm_customQueries_stats'' fi0 worldC = Inl OutOfRange"
    using ne c s by (simp add: OpenLocalImpl_def sys_open_reg [OF reg] OpenLocalImpl_fetch_def a Let_def)
  have e: "Split env0 ''/customQueries2'' (CHR ''/'') = [''customQueries2'']"
    by (simp add: mount0_defs)
  have s2: "strstr ''/customQueries2'' (CUSTOM_QUERY_FOLDER_NAME env0)"
    by (simp add: env0_def starts_with_def)
  have od: "sys_opendir (CalculateDumpPath env0 ''/customQueries2'') worldC =
              (1, emit (EvOpendir ''/dump/customQueries2'')
                    (worldC\<lparr>dirtab := [(1, \<lparr>d_path = ''/dump/customQueries2'', d_buf = None, d_pos = 0\<rparr>)]\<rparr>))"
    by (simp add: sys_opendir_def worldC_def mount0_defs lookup_node_def Let_def)
  have "map_of (dirtab (emit (EvOpendir ''/dump/customQueries2'')
                    (worldC\<lparr>dirtab := [(1, \<lparr>d_path = ''/dump/customQueries2'', d_buf = None, d_pos = 0\<rparr>)]\<rparr>))) 1
          = Some \<lparr>d_path = ''/dump/customQueries2'', d_buf = None, d_pos = 0\<rparr>"
    by (simp add: emit_def)
  from RemoveCustomQueriesOutputFiles_run [OF _ this, of "''/dump/customQueries2''"]
  obtain w2 where rm: "RemoveCustomQueriesOutputFiles 1 ''/dump/customQueries2''
                         (emit (EvOpendir ''/dump/customQueries2'')
                            (worldC\<lparr>dirtab := [(1, \<lparr>d_path = ''/dump/customQueries2'', d_buf = None, d_pos = 0\<rparr>)]\<rparr>))
                       = Inr w2"
    by auto
  have pd: "CalculateDumpPath env0 ''/customQueries2'' = ''/dump/customQueries2''"
    by (simp add: env0_def)
  have f: "OpendirLocalImpl env0 ''/customQueries2'' fi0 worldC = Inl AssertFailed"
    using s2 by (simp add: OpendirLocalImpl_def od [unfolded pd] pd rm e Let_def)
  show ?thesis using a b c d e f by simp
qed

section \<open>Mount start\<close>

text \<open>
  C8. InitializeSQLFs calls KillSelf whenever \<open>mkdir\<close> returns \<open>-1\<close> and never looks at
  \<open>errno\<close>. When the dump directory exists, \<open>mkdir\<close> fails with \<open>EEXIST\<close> and the
  process is killed.
\<close>

theorem init_killed_when_dump_dir_exists:
  "lookup_node world0 (m_dumpPath env0) = Some Dir \<and>
   sys_mkdir (m_dumpPath env0) world0 = (-1, (emit (EvMkdir ''/dump'') world0)\<lparr>errno := EEXIST\<rparr>) \<and>
   InitializeSQLFs env0 world0 = Inl Killed"
  by (simp add: InitializeSQLFs_def sys_mkdir_def fail_with_def lookup_node_def mount0_defs)

section \<open>Calls without a handle\<close>

text \<open>
  C9. For a null \<open>fi\<close>, GetFileDescriptorForPath evaluates \<open>fi->flags\<close>: the helper
  reads through the null pointer for every path and state, and read, write and
  fallocate without a handle end there, before any descriptor is opened.
\<close>

theorem null_handle_dereferenced:
  "GetFileDescriptorForPath e path None w = Inl NullDeref \<and>
   ReadLocalImpl env0 ''/plain.txt'' 3 0 None world0 = Inl NullDeref \<and>
   \<not> IsDbfsFile env0 ''/plain.txt'' \<and>
   WriteLocalImpl env0 ''/plain.txt'' ''xy'' 2 0 None world0 = Inl NullDeref \<and>
   FallocateLocalImpl env0 ''/plain.txt'' 0 0 8 None world0 = Inl NullDeref"
  by (simp add: GetFileDescriptorForPath_def ReadLocalImpl_def WriteLocalImpl_def
        FallocateLocalImpl_def mount0_defs)

section \<open>opendir on the custom-query directory\<close>


lemmas opendir_eval_defs =
  OpendirLocalImpl_def mount0_defs sys_opendir_def lookup_node_def Let_def emit_def starts_with_def
  RemoveCustomQueriesOutputFiles.simps sys_readdir_def read_dir_def list_dir_def child_name_def
  set_stream_def sys_unlink_def sys_rewinddir_def CreateCustomQueriesOutputFiles_def
  source_entries_def GetServerInfo_def sys_creat_def fail_with_def EISDIR_def store_node_def

lemma opendir_mount0: "OpendirLocalImpl env0 ''/srv/customQueries'' fi0 world0 = Inr (0, fiD, worldD)"
  by (simp add: opendir_eval_defs fiD_def worldD_def)

lemma source_entries_srv: "source_entries env0 ''srv'' = [''a.sql'', ''b.sql'']"
  by (simp add: source_entries_def GetServerInfo_def env0_def srv_info_def)



end
